theory Spec2Isabelle
  imports Main
begin

section \<open>Python values used by \<^verbatim>\<open>scripts/run-ft-benchmark.py\<close>\<close>

text \<open>
  A Python \<^verbatim>\<open>str\<close> is modelled as a \<^typ>\<open>string\<close>, each \<^typ>\<open>char\<close> standing
  for the code point of the same number (code points below 256). On that range the
  regular-expression class \<^verbatim>\<open>\d\<close> is exactly the ten ASCII digits, and
  \<^verbatim>\<open>str.isspace\<close> holds for the twelve code points listed in \<open>is_space\<close>.
\<close>

definition LF :: char where
  "LF = CHR 0x0A"

definition CR :: char where
  "CR = CHR 0x0D"

definition is_digit :: "char \<Rightarrow> bool" where
  "is_digit c = (c \<in> set ''0123456789'')"

definition is_space :: "char \<Rightarrow> bool" where
  "is_space c = (c \<in> set [CHR 0x09, CHR 0x0A, CHR 0x0B, CHR 0x0C, CHR 0x0D,
                            CHR 0x1C, CHR 0x1D, CHR 0x1E, CHR 0x1F, CHR 0x20,
                            CHR 0x85, CHR 0xA0])"

text \<open>\<^verbatim>\<open>s.strip()\<close>: leading and trailing white space removed.\<close>

definition strip :: "string \<Rightarrow> string" where
  "strip s = rev (dropWhile is_space (rev (dropWhile is_space s)))"

text \<open>\<^verbatim>\<open>str(n)\<close> of a Python integer, as the f-strings render the numeric options.\<close>

fun str_nat :: "nat \<Rightarrow> string" where
  "str_nat n =
     (if n < 10 then [''0123456789'' ! n]
      else str_nat (n div 10) @ [''0123456789'' ! (n mod 10)])"

declare str_nat.simps [simp del]

definition str_int :: "int \<Rightarrow> string" where
  "str_int i = (if i < 0 then CHR ''-'' # str_nat (nat (- i)) else str_nat (nat i))"

text \<open>The exceptions the script raises or lets through.\<close>

datatype exn =
    ArgumentTypeError string
  | RuntimeError string
  | OSError string
  | SystemExit int

section \<open>The argument validators\<close>

text \<open>
  \<^verbatim>\<open>re.match\<close> without flags. \<^verbatim>\<open>$\<close> matches at the end of the string and also
  just before a newline that is the last character of the string.
\<close>

definition at_dollar :: "string \<Rightarrow> bool" where
  "at_dollar rest = (rest = [] \<or> rest = [LF])"

text \<open>
  \<^verbatim>\<open>(\d+)\<close> is greedy: it first takes every leading digit and gives digits back one by
  one, down to a single digit, while the rest of the pattern (\<open>k\<close>, which returns the
  second group) fails. The third argument is the number of digits still to try.
\<close>

fun match_digits :: "(string \<Rightarrow> string option) \<Rightarrow> string \<Rightarrow> nat \<Rightarrow> (string \<times> string) option" where
  "match_digits k s 0 = None"
| "match_digits k s (Suc n) =
     (case k (drop (Suc n) s) of
        Some g2 \<Rightarrow> Some (take (Suc n) s, g2)
      | None \<Rightarrow> match_digits k s n)"

text \<open>The character classes \<^verbatim>\<open>[hms]\<close> and \<^verbatim>\<open>[KMG]\<close>.\<close>

definition unit_char :: "char \<Rightarrow> bool" where
  "unit_char c = (c \<in> set ''hms'')"

definition magnitude_char :: "char \<Rightarrow> bool" where
  "magnitude_char c = (c \<in> set ''KMG'')"

text \<open>\<^verbatim>\<open>([hms])$\<close> from the current position.\<close>

fun match_unit :: "string \<Rightarrow> string option" where
  "match_unit [] = None"
| "match_unit (c # rest) = (if unit_char c \<and> at_dollar rest then Some [c] else None)"

text \<open>\<^verbatim>\<open>([KMG]?)$\<close> from the current position: first with one letter, then with none.\<close>

fun match_magnitude :: "string \<Rightarrow> string option" where
  "match_magnitude [] = Some []"
| "match_magnitude (c # rest) =
     (if magnitude_char c \<and> at_dollar rest then Some [c]
      else if at_dollar (c # rest) then Some []
      else None)"

definition re_match_time :: "string \<Rightarrow> (string \<times> string) option" where
  "re_match_time time_str = match_digits match_unit time_str (length (takeWhile is_digit time_str))"

definition re_match_state :: "string \<Rightarrow> (string \<times> string) option" where
  "re_match_state state_str =
     match_digits match_magnitude state_str (length (takeWhile is_digit state_str))"

definition time_error :: "string \<Rightarrow> exn" where
  "time_error time_str = ArgumentTypeError
     (''Invalid time format: '' @ [CHR 0x27] @ time_str @ [CHR 0x27] @
      ''. Must be a number followed by '' @ [CHR 0x27] @ ''h'' @ [CHR 0x27] @ '', '' @
      [CHR 0x27] @ ''m'' @ [CHR 0x27] @ '', or '' @ [CHR 0x27] @ ''s'' @ [CHR 0x27] @ ''.'')"

definition state_error :: "string \<Rightarrow> exn" where
  "state_error state_str = ArgumentTypeError
     (''Invalid state format: '' @ [CHR 0x27] @ state_str @ [CHR 0x27] @
      ''. Must be a number optionally followed by '' @ [CHR 0x27] @ ''K'' @ [CHR 0x27] @
      '', '' @ [CHR 0x27] @ ''M'' @ [CHR 0x27] @ '', or '' @ [CHR 0x27] @ ''G'' @
      [CHR 0x27] @ ''.'')"

definition parse_time :: "string \<Rightarrow> exn + string" where
  "parse_time time_str =
     (case re_match_time time_str of
        None \<Rightarrow> Inl (time_error time_str)
      | Some (g1, g2) \<Rightarrow> Inr (g1 @ g2))"

definition parse_state :: "string \<Rightarrow> exn + string" where
  "parse_state state_str =
     (case re_match_state state_str of
        None \<Rightarrow> Inl (state_error state_str)
      | Some (g1, g2) \<Rightarrow> Inr (g1 @ g2))"

text \<open>
  The grammars as the specification words them: a non-negative integer (one or more
  decimal digits) followed by one unit letter, respectively by an optional magnitude
  letter.
\<close>

definition wf_duration :: "string \<Rightarrow> bool" where
  "wf_duration s =
     (s \<noteq> [] \<and> butlast s \<noteq> [] \<and> list_all is_digit (butlast s) \<and> unit_char (last s))"

definition wf_state :: "string \<Rightarrow> bool" where
  "wf_state s =
     (s \<noteq> [] \<and>
      (list_all is_digit s \<or>
       (butlast s \<noteq> [] \<and> list_all is_digit (butlast s) \<and> magnitude_char (last s))))"

section \<open>The world the script acts on\<close>

definition LOCK_FILE :: string where
  "LOCK_FILE = ''/tmp/run-ft-benchmark.lock''"

definition REPO_URL :: string where
  "REPO_URL = ''https://github.com/near/nearcore''"

text \<open>
  Effects, in the order they happen. \<open>Exec command cwd\<close> is one call of
  \<^verbatim>\<open>subprocess.run(command, shell=True, cwd=cwd, ...)\<close>.
\<close>

datatype event =
    Print string
  | Exec string "string option"
  | WriteFile string string
  | Remove string
  | MkDTemp string
  | RmTree string

text \<open>
  The part of the file system the script reads and writes: the content of the file at
  \<open>LOCK_FILE\<close> (\<open>None\<close> when there is no such file) and the directories that exist.
  File-system calls succeed whenever the path they act on exists.
\<close>

record world =
  lock :: "string option"
  dirs :: "string list"
  log :: "event list"

text \<open>What \<^verbatim>\<open>subprocess.run\<close> returns.\<close>

record proc =
  returncode :: int
  stdout :: string
  stderr :: string

text \<open>
  Everything the script does not decide itself: the outcome of each shell command (by
  command line and working directory) and the directory \<^verbatim>\<open>tempfile.mkdtemp()\<close>
  creates.
\<close>

record env =
  shell :: "string \<Rightarrow> string option \<Rightarrow> proc"
  tmp_name :: string

definition py_print :: "string \<Rightarrow> world \<Rightarrow> world" where
  "py_print s w = w\<lparr>log := log w @ [Print s]\<rparr>"

text \<open>
  \<^verbatim>\<open>f.read()\<close> of a file opened in text mode: \<^verbatim>\<open>\r\n\<close> and a lone \<^verbatim>\<open>\r\<close> are
  read as \<^verbatim>\<open>\n\<close>.
\<close>

fun universal_newlines :: "string \<Rightarrow> string" where
  "universal_newlines [] = []"
| "universal_newlines [c] = (if c = CR then [LF] else [c])"
| "universal_newlines (c # d # cs) =
     (if c = CR \<and> d = LF then LF # universal_newlines cs
      else if c = CR then LF # universal_newlines (d # cs)
      else c # universal_newlines (d # cs))"

definition open_read :: "world \<Rightarrow> (exn + string) \<times> world" where
  "open_read w =
     (case lock w of
        None \<Rightarrow> (Inl (OSError ''FileNotFoundError''), w)
      | Some content \<Rightarrow> (Inr (universal_newlines content), w))"

definition open_write :: "string \<Rightarrow> world \<Rightarrow> exn option \<times> world" where
  "open_write text w =
     (None, w\<lparr>lock := Some text, log := log w @ [WriteFile LOCK_FILE text]\<rparr>)"

definition os_remove :: "world \<Rightarrow> exn option \<times> world" where
  "os_remove w =
     (case lock w of
        None \<Rightarrow> (Some (OSError ''FileNotFoundError''), w)
      | Some content \<Rightarrow> (None, w\<lparr>lock := None, log := log w @ [Remove LOCK_FILE]\<rparr>))"

text \<open>\<^verbatim>\<open>posixpath.join(a, b)\<close> and \<^verbatim>\<open>posixpath.dirname(p)\<close>.\<close>

definition os_path_join :: "string \<Rightarrow> string \<Rightarrow> string" where
  "os_path_join a b =
     (if b \<noteq> [] \<and> hd b = CHR ''/'' then b
      else if a = [] \<or> last a = CHR ''/'' then a @ b
      else a @ ''/'' @ b)"

definition os_path_dirname :: "string \<Rightarrow> string" where
  "os_path_dirname p =
     (let head = rev (dropWhile (\<lambda>c. c \<noteq> CHR ''/'') (rev p))
      in if head \<noteq> [] \<and> \<not> list_all (\<lambda>c. c = CHR ''/'') head
         then rev (dropWhile (\<lambda>c. c = CHR ''/'') (rev head))
         else head)"

text \<open>\<open>within_dir d p\<close>: \<open>p\<close> is the directory \<open>d\<close> or lies below it.\<close>

definition within_dir :: "string \<Rightarrow> string \<Rightarrow> bool" where
  "within_dir d p = (p = d \<or> take (Suc (length d)) p = d @ ''/'')"

definition shutil_rmtree :: "string \<Rightarrow> world \<Rightarrow> exn option \<times> world" where
  "shutil_rmtree d w =
     (if d \<in> set (dirs w)
      then (None, w\<lparr>dirs := filter (\<lambda>p. \<not> within_dir d p) (dirs w), log := log w @ [RmTree d]\<rparr>)
      else (Some (OSError ''FileNotFoundError''), w))"

definition tempfile_mkdtemp :: "env \<Rightarrow> world \<Rightarrow> string \<times> world" where
  "tempfile_mkdtemp e w =
     (tmp_name e, w\<lparr>dirs := tmp_name e # dirs w, log := log w @ [MkDTemp (tmp_name e)]\<rparr>)"

section \<open>The run lock\<close>

definition create_lock_file :: "string \<Rightarrow> world \<Rightarrow> exn option \<times> world" where
  "create_lock_file u w =
     (if lock w \<noteq> None then
        (case open_read w of
           (Inl e, w') \<Rightarrow> (Some e, w')
         | (Inr text, w') \<Rightarrow>
             (Some (RuntimeError (strip text @ '' already running benchmark'')), w'))
      else open_write u w)"

definition remove_lock_file :: "world \<Rightarrow> exn option \<times> world" where
  "remove_lock_file w = (if lock w \<noteq> None then os_remove w else (None, w))"

section \<open>Shell commands, the workspace and the benchmark\<close>

text \<open>\<^verbatim>\<open>RuntimeError(f"Command '{command}' failed with error: {result.stderr}")\<close>\<close>

definition command_error :: "string \<Rightarrow> proc \<Rightarrow> exn" where
  "command_error command result =
     RuntimeError (''Command '' @ [CHR 0x27] @ command @ [CHR 0x27] @
       '' failed with error: '' @ stderr result)"

definition run_command :: "env \<Rightarrow> string \<Rightarrow> string option \<Rightarrow> world \<Rightarrow> (exn + string) \<times> world" where
  "run_command e command cwd w =
     (let result = shell e command cwd;
          w' = w\<lparr>log := log w @ [Exec command cwd]\<rparr>
      in if returncode result \<noteq> 0
         then (Inl (command_error command result), w')
         else (Inr (strip (stdout result)), w'))"

text \<open>Sequencing of two steps, the second skipped when the first raises.\<close>

definition then_do ::
  "(world \<Rightarrow> (exn + 'a) \<times> world) \<Rightarrow> ('a \<Rightarrow> world \<Rightarrow> (exn + 'b) \<times> world) \<Rightarrow>
   world \<Rightarrow> (exn + 'b) \<times> world" where
  "then_do m f w = (case m w of (Inl e, w') \<Rightarrow> (Inl e, w') | (Inr x, w') \<Rightarrow> f x w')"

text \<open>
  What the shell commands leave in the modelled part of the file system: a
  \<^verbatim>\<open>git clone\<close> that exits with status 0 has created its target directory; no command
  touches the lock file or removes a directory.
\<close>

definition cloned :: "string \<Rightarrow> world \<Rightarrow> (exn + unit) \<times> world" where
  "cloned repo_dir w = (Inr (), w\<lparr>dirs := repo_dir # dirs w\<rparr>)"

text \<open>\<^verbatim>\<open>if not commit: commit = run_command("git rev-parse origin/master", ...)\<close>\<close>

definition resolve_commit :: "string option \<Rightarrow> string \<Rightarrow> env \<Rightarrow> world \<Rightarrow> (exn + string) \<times> world" where
  "resolve_commit commit repo_dir e w =
     (case commit of
        None \<Rightarrow> run_command e ''git rev-parse origin/master'' (Some repo_dir) w
      | Some c \<Rightarrow>
          if c = [] then run_command e ''git rev-parse origin/master'' (Some repo_dir) w
          else (Inr c, w))"

text \<open>The body of the \<^verbatim>\<open>try\<close> in \<^verbatim>\<open>checkout_repo\<close>.\<close>

definition checkout_steps :: "string \<Rightarrow> string option \<Rightarrow> env \<Rightarrow> world \<Rightarrow> (exn + string) \<times> world" where
  "checkout_steps repo_dir commit e =
     then_do (run_command e ''git config --global http.postBuffer 524288000'' None) (\<lambda>_.
     then_do (run_command e (''git clone '' @ REPO_URL @ '' '' @ repo_dir) None) (\<lambda>_.
     then_do (cloned repo_dir) (\<lambda>_.
     then_do (run_command e ''git fetch'' (Some repo_dir)) (\<lambda>_.
     then_do (resolve_commit commit repo_dir e) (\<lambda>c.
     then_do (run_command e (''git checkout '' @ c) (Some repo_dir)) (\<lambda>_.
     Pair (Inr c)))))))"

definition checkout_repo :: "string option \<Rightarrow> env \<Rightarrow> world \<Rightarrow> (exn + string \<times> string) \<times> world" where
  "checkout_repo commit e w =
     (let (temp_dir, w1) = tempfile_mkdtemp e w;
          repo_dir = os_path_join temp_dir ''nearcore''
      in case checkout_steps repo_dir commit e w1 of
           (Inl (RuntimeError m), w2) \<Rightarrow>
             (case shutil_rmtree temp_dir w2 of
                (Some e', w3) \<Rightarrow> (Inl e', w3)
              | (None, w3) \<Rightarrow> (Inl (RuntimeError m), w3))
         | (Inl other, w2) \<Rightarrow> (Inl other, w2)
         | (Inr c, w2) \<Rightarrow> (Inr (repo_dir, c), w2))"

definition benchmark_command ::
  "string \<Rightarrow> int \<Rightarrow> string \<Rightarrow> int \<Rightarrow> int \<Rightarrow> int \<Rightarrow> string \<Rightarrow> string" where
  "benchmark_command t us st sh nd ru u =
     ''./scripts/start_benchmark.sh '' @ t @ '' '' @ str_int us @ '' '' @ st @ '' '' @
     str_int sh @ '' '' @ str_int nd @ '' '' @ str_int ru @ '' '' @ u"

definition run_benchmark ::
  "string \<Rightarrow> string \<Rightarrow> int \<Rightarrow> string \<Rightarrow> int \<Rightarrow> int \<Rightarrow> int \<Rightarrow> string \<Rightarrow> env \<Rightarrow> world \<Rightarrow>
   exn option \<times> world" where
  "run_benchmark repo_dir t us st sh nd ru u e w =
     (case run_command e (benchmark_command t us st sh nd ru u) (Some repo_dir) w of
        (Inl ex, w') \<Rightarrow> (Some ex, w')
      | (Inr out, w') \<Rightarrow> (None, w'))"

section \<open>Argument parsing and the orchestrator\<close>

text \<open>
  The command line, as \<^verbatim>\<open>argparse\<close> sees it after tokenising: the options given, in
  order, each with its value. A later occurrence of an option overrides an earlier one;
  every value is converted when it is met.
\<close>

datatype opt = OptTime | OptUsers | OptState | OptShards | OptNodes | OptRumpUp | OptUser | OptCommit

record args =
  time :: string
  users :: int
  state :: string
  shards :: int
  nodes :: int
  rump_up :: int
  user :: string
  commit :: "string option"

text \<open>
  The declared defaults. The string defaults \<^verbatim>\<open>'1h'\<close> and \<^verbatim>\<open>'1G'\<close> pass through
  their validators unchanged.
\<close>

definition defaults :: args where
  "defaults = \<lparr>time = ''1h'', users = 100, state = ''1G'', shards = 1, nodes = 1,
               rump_up = 5, user = ''default_user'', commit = None\<rparr>"

text \<open>
  One option stored. \<open>py_int\<close> is Python's built-in \<^verbatim>\<open>int\<close> on strings (\<open>None\<close> when
  it raises \<^verbatim>\<open>ValueError\<close>). A conversion that raises makes \<^verbatim>\<open>argparse\<close> print the
  usage and exit with status 2.
\<close>

fun store :: "(string \<Rightarrow> int option) \<Rightarrow> opt \<Rightarrow> string \<Rightarrow> args \<Rightarrow> exn + args" where
  "store py_int OptTime v a =
     (case parse_time v of Inl e \<Rightarrow> Inl (SystemExit 2) | Inr t \<Rightarrow> Inr (a\<lparr>time := t\<rparr>))"
| "store py_int OptUsers v a =
     (case py_int v of None \<Rightarrow> Inl (SystemExit 2) | Some n \<Rightarrow> Inr (a\<lparr>users := n\<rparr>))"
| "store py_int OptState v a =
     (case parse_state v of Inl e \<Rightarrow> Inl (SystemExit 2) | Inr t \<Rightarrow> Inr (a\<lparr>state := t\<rparr>))"
| "store py_int OptShards v a =
     (case py_int v of None \<Rightarrow> Inl (SystemExit 2) | Some n \<Rightarrow> Inr (a\<lparr>shards := n\<rparr>))"
| "store py_int OptNodes v a =
     (case py_int v of None \<Rightarrow> Inl (SystemExit 2) | Some n \<Rightarrow> Inr (a\<lparr>nodes := n\<rparr>))"
| "store py_int OptRumpUp v a =
     (case py_int v of None \<Rightarrow> Inl (SystemExit 2) | Some n \<Rightarrow> Inr (a\<lparr>rump_up := n\<rparr>))"
| "store py_int OptUser v a = Inr (a\<lparr>user := v\<rparr>)"
| "store py_int OptCommit v a = Inr (a\<lparr>commit := Some v\<rparr>)"

fun parse_loop :: "(string \<Rightarrow> int option) \<Rightarrow> (opt \<times> string) list \<Rightarrow> args \<Rightarrow> exn + args" where
  "parse_loop py_int [] a = Inr a"
| "parse_loop py_int ((opt, v) # rest) a =
     (case store py_int opt v a of
        Inl e \<Rightarrow> Inl e
      | Inr a' \<Rightarrow> parse_loop py_int rest a')"

definition parse_args :: "(string \<Rightarrow> int option) \<Rightarrow> (opt \<times> string) list \<Rightarrow> exn + args" where
  "parse_args py_int argv = parse_loop py_int argv defaults"

text \<open>The seven \<^verbatim>\<open>print\<close> calls that follow the acquisition of the lock.\<close>

definition print_config :: "args \<Rightarrow> world \<Rightarrow> world" where
  "print_config a w =
     py_print (''User: '' @ user a)
    (py_print (''Rump-up: '' @ str_int (rump_up a))
    (py_print (''Nodes: '' @ str_int (nodes a))
    (py_print (''Shards: '' @ str_int (shards a))
    (py_print (''State: '' @ state a)
    (py_print (''Users: '' @ str_int (users a))
    (py_print (''Time: '' @ time a) w))))))"

text \<open>
  The \<^verbatim>\<open>try\<close> block of \<^verbatim>\<open>main\<close>. Beside the exception it ends with (if any) it
  returns the value of the local variable \<^verbatim>\<open>repo_dir\<close>, \<open>None\<close> while the variable is
  unbound.
\<close>

definition try_block :: "args \<Rightarrow> env \<Rightarrow> world \<Rightarrow> (exn option \<times> string option) \<times> world" where
  "try_block a e w =
     (case create_lock_file (user a) w of
        (Some ex, w1) \<Rightarrow> ((Some ex, None), w1)
      | (None, w1) \<Rightarrow>
          (case checkout_repo (commit a) e (print_config a w1) of
             (Inl ex, w3) \<Rightarrow> ((Some ex, None), w3)
           | (Inr (repo_dir, c), w3) \<Rightarrow>
               (case run_benchmark repo_dir (time a) (users a) (state a) (shards a)
                       (nodes a) (rump_up a) (user a) e
                       (py_print (''Using commit: '' @ c) w3) of
                  (r, w4) \<Rightarrow> ((r, Some repo_dir), w4))))"

text \<open>
  The \<^verbatim>\<open>finally\<close> block: two statements, one after the other, with nothing between
  them that catches an exception. The two steps are parameters here, so that the block
  can also be run with a step that raises; \<^verbatim>\<open>main\<close> runs it with
  \<^verbatim>\<open>remove_lock_file\<close> and \<^verbatim>\<open>shutil.rmtree\<close>.
\<close>

definition finally_steps ::
  "(world \<Rightarrow> exn option \<times> world) \<Rightarrow> (string \<Rightarrow> world \<Rightarrow> exn option \<times> world) \<Rightarrow>
   string option \<Rightarrow> world \<Rightarrow> exn option \<times> world" where
  "finally_steps release teardown repo_dir w =
     (case release w of
        (Some ex, w1) \<Rightarrow> (Some ex, w1)
      | (None, w1) \<Rightarrow>
          (case repo_dir of
             None \<Rightarrow> (None, w1)
           | Some rd \<Rightarrow>
               if rd \<in> set (dirs w1) then teardown (os_path_dirname rd) w1
               else (None, w1)))"

definition finally_block :: "string option \<Rightarrow> world \<Rightarrow> exn option \<times> world" where
  "finally_block repo_dir w = finally_steps remove_lock_file shutil_rmtree repo_dir w"

text \<open>
  \<^verbatim>\<open>try: ... except RuntimeError as e: print(e) finally: ...\<close>: a \<^verbatim>\<open>RuntimeError\<close> is
  printed and ends there, any other exception goes on after the \<^verbatim>\<open>finally\<close> block,
  and an exception of the \<^verbatim>\<open>finally\<close> block itself replaces it.
\<close>

definition orchestrate :: "args \<Rightarrow> env \<Rightarrow> world \<Rightarrow> exn option \<times> world" where
  "orchestrate a e w =
     (case try_block a e w of
        ((r, repo_dir), w1) \<Rightarrow>
          (let (pending, w2) =
                 (case r of
                    Some (RuntimeError m) \<Rightarrow> (None, py_print m w1)
                  | _ \<Rightarrow> (r, w1))
           in case finally_block repo_dir w2 of
                (Some ex, w3) \<Rightarrow> (Some ex, w3)
              | (None, w3) \<Rightarrow> (pending, w3)))"

definition main :: "(string \<Rightarrow> int option) \<Rightarrow> (opt \<times> string) list \<Rightarrow> env \<Rightarrow> world \<Rightarrow> exn option \<times> world" where
  "main py_int argv e w =
     (case parse_args py_int argv of
        Inl ex \<Rightarrow> (Some ex, w)
      | Inr a \<Rightarrow> orchestrate a e w)"

section \<open>Notions the properties are stated with\<close>

text \<open>
  What \<^verbatim>\<open>/bin/sh -c\<close> makes of a command line that consists only of plain characters,
  spaces and tabs: the words between the blanks, the first of them the command and the
  others its arguments. Plain characters are the letters, the digits and
  \<^verbatim>\<open>_ - . / : , + @ % =\<close>, which the shell passes on as they are. Any other character
  (a quote, \<^verbatim>\<open>$\<close>, \<^verbatim>\<open>;\<close>, \<^verbatim>\<open>*\<close>, a newline, ...) makes the shell do more than split
  the line; that is not modelled, and the answer is \<open>None\<close>.
\<close>

definition shell_plain :: "char \<Rightarrow> bool" where
  "shell_plain c =
     (c \<in> set (''abcdefghijklmnopqrstuvwxyz'' @ ''ABCDEFGHIJKLMNOPQRSTUVWXYZ'' @
               ''0123456789'' @ ''_-./:,+@%=''))"

definition shell_blank :: "char \<Rightarrow> bool" where
  "shell_blank c = (c = CHR '' '' \<or> c = CHR 0x09)"

fun split_blank :: "string \<Rightarrow> string list" where
  "split_blank [] = [[]]"
| "split_blank (c # cs) =
     (if shell_blank c then [] # split_blank cs
      else (case split_blank cs of w # ws \<Rightarrow> (c # w) # ws | [] \<Rightarrow> [[c]]))"

definition sh_words :: "string \<Rightarrow> string list option" where
  "sh_words s =
     (if list_all (\<lambda>c. shell_plain c \<or> shell_blank c) s
      then Some (filter (\<lambda>w. w \<noteq> []) (split_blank s))
      else None)"

text \<open>The value of a string of decimal digits.\<close>

fun digit_value :: "char \<Rightarrow> nat" where
  "digit_value c = length (takeWhile (\<lambda>d. d \<noteq> c) ''0123456789'')"

definition decimal :: "string \<Rightarrow> nat" where
  "decimal ds = foldl (\<lambda>n c. 10 * n + digit_value c) 0 ds"

text \<open>The name \<^verbatim>\<open>tempfile.mkdtemp()\<close> returns is an absolute, normalised path.\<close>

definition wf_tmp :: "string \<Rightarrow> bool" where
  "wf_tmp t = (t \<noteq> [] \<and> last t \<noteq> CHR ''/'')"

text \<open>A word the shell passes on as one argument, unchanged: not empty, plain characters only.\<close>

definition safe_word :: "string \<Rightarrow> bool" where
  "safe_word w = (w \<noteq> [] \<and> list_all shell_plain w)"

text \<open>A parsed configuration whose duration and state size are in their grammars.\<close>

definition validated :: "args \<Rightarrow> bool" where
  "validated a = (wf_duration (time a) \<and> wf_state (state a))"

text \<open>A shell command that exits with status 0.\<close>

definition succeeds :: "env \<Rightarrow> string \<Rightarrow> string option \<Rightarrow> bool" where
  "succeeds e command cwd = (returncode (shell e command cwd) = 0)"

text \<open>The directory of the clone: \<^verbatim>\<open>os.path.join(temp_dir, "nearcore")\<close>.\<close>

definition repo_dir_of :: "env \<Rightarrow> string" where
  "repo_dir_of e = os_path_join (tmp_name e) ''nearcore''"

text \<open>A commit was specified: the option was given, with a value that is not empty.\<close>

definition commit_given :: "string option \<Rightarrow> bool" where
  "commit_given cm = (case cm of None \<Rightarrow> False | Some c \<Rightarrow> c \<noteq> [])"

text \<open>
  The commit that is checked out: the one specified, or else what
  \<^verbatim>\<open>git rev-parse origin/master\<close> prints, stripped.
\<close>

definition resolved :: "string option \<Rightarrow> env \<Rightarrow> string" where
  "resolved cm e =
     (case cm of
        None \<Rightarrow> strip (stdout (shell e ''git rev-parse origin/master'' (Some (repo_dir_of e))))
      | Some c \<Rightarrow>
          if c = [] then strip (stdout (shell e ''git rev-parse origin/master'' (Some (repo_dir_of e))))
          else c)"

text \<open>The commands of a checkout in which each of them succeeds, in order.\<close>

definition checkout_events :: "string option \<Rightarrow> env \<Rightarrow> event list" where
  "checkout_events cm e =
     [Exec ''git config --global http.postBuffer 524288000'' None,
      Exec (''git clone '' @ REPO_URL @ '' '' @ repo_dir_of e) None,
      Exec ''git fetch'' (Some (repo_dir_of e))] @
     (if commit_given cm then []
      else [Exec ''git rev-parse origin/master'' (Some (repo_dir_of e))]) @
     [Exec (''git checkout '' @ resolved cm e) (Some (repo_dir_of e))]"

text \<open>Every command of the checkout succeeds.\<close>

definition checkout_ok :: "string option \<Rightarrow> env \<Rightarrow> bool" where
  "checkout_ok cm e =
     (succeeds e ''git config --global http.postBuffer 524288000'' None \<and>
      succeeds e (''git clone '' @ REPO_URL @ '' '' @ repo_dir_of e) None \<and>
      succeeds e ''git fetch'' (Some (repo_dir_of e)) \<and>
      (commit_given cm \<or>
       succeeds e ''git rev-parse origin/master'' (Some (repo_dir_of e))) \<and>
      succeeds e (''git checkout '' @ resolved cm e) (Some (repo_dir_of e)))"

text \<open>What \<open>print_config\<close> prints.\<close>

definition announce :: "args \<Rightarrow> event list" where
  "announce a =
     [Print (''Time: '' @ time a), Print (''Users: '' @ str_int (users a)),
      Print (''State: '' @ state a), Print (''Shards: '' @ str_int (shards a)),
      Print (''Nodes: '' @ str_int (nodes a)), Print (''Rump-up: '' @ str_int (rump_up a)),
      Print (''User: '' @ user a)]"

definition is_exec :: "event \<Rightarrow> bool" where
  "is_exec ev = (case ev of Exec c d \<Rightarrow> True | _ \<Rightarrow> False)"

section \<open>Example inputs\<close>

text \<open>
  An environment in which every command succeeds and prints \<^verbatim>\<open>abc123\<close>, one in which
  \<^verbatim>\<open>git fetch\<close> fails, a world with no lock marker and no directory, and an
  \<^verbatim>\<open>int\<close> for the numerals the examples use.
\<close>

definition quiet_env :: env where
  "quiet_env =
     \<lparr>shell = (\<lambda>c d. \<lparr>returncode = 0, stdout = ''abc123'', stderr = []\<rparr>),
      tmp_name = ''/tmp/tmpab12''\<rparr>"

definition fetch_fails_env :: env where
  "fetch_fails_env =
     \<lparr>shell = (\<lambda>c d. \<lparr>returncode = (if c = ''git fetch'' then 1 else 0),
                          stdout = ''abc123'', stderr = ''boom''\<rparr>),
      tmp_name = ''/tmp/tmpab12''\<rparr>"

definition empty_world :: world where
  "empty_world = \<lparr>lock = None, dirs = [], log = []\<rparr>"

definition example_int :: "string \<Rightarrow> int option" where
  "example_int s =
     (if s = ''50'' then Some 50 else if s = ''4'' then Some 4 else if s = ''2'' then Some 2
      else if s = ''10'' then Some 10 else None)"

definition example_argv :: "(opt \<times> string) list" where
  "example_argv =
     [(OptTime, ''2h''), (OptUsers, ''50''), (OptState, ''2G''), (OptShards, ''4''),
      (OptNodes, ''2''), (OptRumpUp, ''10''), (OptUser, ''alice''), (OptCommit, ''abc123'')]"

text \<open>
  The world of a run after a successful checkout, and a release that finds the marker
  but whose \<^verbatim>\<open>os.remove\<close> raises \<^verbatim>\<open>PermissionError\<close> and leaves it.
\<close>

definition workspace_world :: world where
  "workspace_world =
     \<lparr>lock = Some ''alice'', dirs = [''/tmp/tmpab12/nearcore'', ''/tmp/tmpab12''], log = []\<rparr>"

definition denied_release :: "world \<Rightarrow> exn option \<times> world" where
  "denied_release w =
     (if lock w \<noteq> None then (Some (OSError ''PermissionError''), w) else (None, w))"

section \<open>Lemmas: the regular expressions\<close>

lemma digit_not_unit: "is_digit c \<Longrightarrow> \<not> unit_char c"
  by (auto simp: is_digit_def unit_char_def)

lemma digit_not_magnitude: "is_digit c \<Longrightarrow> \<not> magnitude_char c"
  by (auto simp: is_digit_def magnitude_char_def)

lemma digit_not_LF: "is_digit c \<Longrightarrow> c \<noteq> LF"
  by (auto simp: is_digit_def LF_def)

lemma unit_not_digit: "unit_char c \<Longrightarrow> \<not> is_digit c"
  using digit_not_unit by blast

lemma magnitude_not_digit: "magnitude_char c \<Longrightarrow> \<not> is_digit c"
  using digit_not_magnitude by blast

lemma LF_not_digit: "\<not> is_digit LF"
  by (simp add: is_digit_def LF_def)

lemma LF_not_unit: "\<not> unit_char LF"
  by (simp add: unit_char_def LF_def)

lemma LF_not_magnitude: "\<not> magnitude_char LF"
  by (simp add: magnitude_char_def LF_def)

lemma match_unit_digit: "is_digit c \<Longrightarrow> match_unit (c # cs) = None"
  using digit_not_unit [of c] by simp

lemma match_magnitude_digit: "is_digit c \<Longrightarrow> match_magnitude (c # cs) = None"
  using digit_not_magnitude [of c] digit_not_LF [of c] by (simp add: at_dollar_def)

lemma drop_in_digits:
  assumes "n < length (takeWhile is_digit s)"
  shows "\<exists>c cs. drop n s = c # cs \<and> is_digit c"
proof -
  have n: "n < length s"
    using assms length_takeWhile_le [of is_digit s] by simp
  have "is_digit (s ! n)"
    using assms nth_length_takeWhile takeWhile_nth nth_mem set_takeWhileD
    by (metis)
  moreover have "drop n s = s ! n # drop (Suc n) s"
    using n by (simp add: Cons_nth_drop_Suc)
  ultimately show ?thesis by blast
qed

lemma match_digits_short:
  assumes k: "\<And>c cs. is_digit c \<Longrightarrow> k (c # cs) = None"
  shows "n < length (takeWhile is_digit s) \<Longrightarrow> match_digits k s n = None"
proof (induction n)
  case 0
  show ?case by simp
next
  case (Suc n)
  from drop_in_digits [OF Suc.prems] obtain c cs where "drop (Suc n) s = c # cs" "is_digit c"
    by blast
  then have "k (drop (Suc n) s) = None" using k by simp
  moreover have "match_digits k s n = None" using Suc by simp
  ultimately show ?case by simp
qed

lemma match_digits_greedy:
  assumes k: "\<And>c cs. is_digit c \<Longrightarrow> k (c # cs) = None"
  shows "match_digits k s (length (takeWhile is_digit s)) =
     (if takeWhile is_digit s = [] then None
      else map_option (Pair (takeWhile is_digit s)) (k (dropWhile is_digit s)))"
proof (cases "length (takeWhile is_digit s)")
  case 0
  then show ?thesis by simp
next
  case (Suc m)
  have t: "take (Suc m) s = takeWhile is_digit s"
    using Suc takeWhile_eq_take [of is_digit s] by simp
  have d: "drop (Suc m) s = dropWhile is_digit s"
    using Suc dropWhile_eq_drop [of is_digit s] by simp
  have "match_digits k s m = None"
  proof (rule match_digits_short)
    show "\<And>c cs. is_digit c \<Longrightarrow> k (c # cs) = None" by (rule k)
    show "m < length (takeWhile is_digit s)" using Suc by simp
  qed
  then show ?thesis
    using Suc t d by (auto split: option.splits)
qed

lemma re_match_time_eq:
  "re_match_time s =
     (if takeWhile is_digit s = [] then None
      else map_option (Pair (takeWhile is_digit s)) (match_unit (dropWhile is_digit s)))"
  unfolding re_match_time_def by (rule match_digits_greedy) (rule match_unit_digit)

lemma re_match_state_eq:
  "re_match_state s =
     (if takeWhile is_digit s = [] then None
      else map_option (Pair (takeWhile is_digit s)) (match_magnitude (dropWhile is_digit s)))"
  unfolding re_match_state_def by (rule match_digits_greedy) (rule match_magnitude_digit)

lemma split_digits:
  assumes "list_all is_digit ds" "\<not> is_digit c"
  shows "takeWhile is_digit (ds @ c # rest) = ds" "dropWhile is_digit (ds @ c # rest) = c # rest"
  using assms by (simp_all add: list_all_iff takeWhile_append2 dropWhile_append2)

lemma all_digits:
  assumes "list_all is_digit ds"
  shows "takeWhile is_digit ds = ds" "dropWhile is_digit ds = []"
  using assms by (simp_all add: list_all_iff)

lemma digits_then_LF:
  assumes "list_all is_digit ds"
  shows "takeWhile is_digit (ds @ [LF]) = ds" "dropWhile is_digit (ds @ [LF]) = [LF]"
  using assms LF_not_digit by (simp_all add: split_digits)

lemma glue:
  assumes "d = g \<or> d = g @ [LF]" "s = t @ d" "r = t @ g"
  shows "s = r \<or> s = r @ [LF]"
  using assms by auto

lemma match_unit_Some:
  "match_unit rest = Some g \<longleftrightarrow>
     (\<exists>c. unit_char c \<and> g = [c] \<and> (rest = [c] \<or> rest = [c, LF]))"
  by (cases rest) (auto simp: at_dollar_def)

lemma match_magnitude_Some:
  "match_magnitude rest = Some g \<longleftrightarrow>
     (g = [] \<and> (rest = [] \<or> rest = [LF])) \<or>
     (\<exists>c. magnitude_char c \<and> g = [c] \<and> (rest = [c] \<or> rest = [c, LF]))"
  using LF_not_magnitude by (cases rest) (auto simp: at_dollar_def)

lemma wf_duration_iff:
  "wf_duration r \<longleftrightarrow>
     (\<exists>ds c. r = ds @ [c] \<and> ds \<noteq> [] \<and> list_all is_digit ds \<and> unit_char c)"
proof
  assume "wf_duration r"
  then have "r = butlast r @ [last r]" "butlast r \<noteq> []" "list_all is_digit (butlast r)"
    "unit_char (last r)"
    by (simp_all add: wf_duration_def)
  then show "\<exists>ds c. r = ds @ [c] \<and> ds \<noteq> [] \<and> list_all is_digit ds \<and> unit_char c"
    by blast
next
  assume "\<exists>ds c. r = ds @ [c] \<and> ds \<noteq> [] \<and> list_all is_digit ds \<and> unit_char c"
  then show "wf_duration r"
    by (auto simp: wf_duration_def)
qed

lemma wf_state_iff:
  "wf_state r \<longleftrightarrow>
     (r \<noteq> [] \<and> list_all is_digit r) \<or>
     (\<exists>ds c. r = ds @ [c] \<and> ds \<noteq> [] \<and> list_all is_digit ds \<and> magnitude_char c)"
proof
  assume w: "wf_state r"
  show "(r \<noteq> [] \<and> list_all is_digit r) \<or>
     (\<exists>ds c. r = ds @ [c] \<and> ds \<noteq> [] \<and> list_all is_digit ds \<and> magnitude_char c)"
  proof (cases "list_all is_digit r")
    case True
    with w show ?thesis by (simp add: wf_state_def)
  next
    case False
    with w have "r = butlast r @ [last r]" "butlast r \<noteq> []" "list_all is_digit (butlast r)"
      "magnitude_char (last r)"
      by (simp_all add: wf_state_def)
    then show ?thesis by blast
  qed
next
  assume "(r \<noteq> [] \<and> list_all is_digit r) \<or>
     (\<exists>ds c. r = ds @ [c] \<and> ds \<noteq> [] \<and> list_all is_digit ds \<and> magnitude_char c)"
  then show "wf_state r"
    by (auto simp: wf_state_def)
qed

lemma parse_time_Inr:
  "parse_time s = Inr r \<longleftrightarrow> wf_duration r \<and> (s = r \<or> s = r @ [LF])"
proof
  assume p: "parse_time s = Inr r"
  then obtain g where ne: "takeWhile is_digit s \<noteq> []"
    and m: "match_unit (dropWhile is_digit s) = Some g"
    and r: "r = takeWhile is_digit s @ g"
    by (auto simp: parse_time_def re_match_time_eq split: if_splits option.splits)
  from m obtain c where c: "unit_char c" "g = [c]"
    and rest: "dropWhile is_digit s = [c] \<or> dropWhile is_digit s = [c, LF]"
    unfolding match_unit_Some by blast
  have s: "s = takeWhile is_digit s @ dropWhile is_digit s" by simp
  have "list_all is_digit (takeWhile is_digit s)"
    by (auto simp: list_all_iff dest: set_takeWhileD)
  with ne c r have "wf_duration r"
    unfolding wf_duration_iff by blast
  moreover have "s = r \<or> s = r @ [LF]"
  proof (rule glue)
    show "dropWhile is_digit s = g \<or> dropWhile is_digit s = g @ [LF]"
      using rest c(2) by simp
    show "s = takeWhile is_digit s @ dropWhile is_digit s" by simp
    show "r = takeWhile is_digit s @ g" by (rule r)
  qed
  ultimately show "wf_duration r \<and> (s = r \<or> s = r @ [LF])" ..
next
  assume "wf_duration r \<and> (s = r \<or> s = r @ [LF])"
  then obtain ds c where r: "r = ds @ [c]" and ds: "ds \<noteq> []" "list_all is_digit ds"
    and c: "unit_char c" and s: "s = r \<or> s = r @ [LF]"
    unfolding wf_duration_iff by blast
  from s obtain rest where rest: "s = ds @ c # rest" "rest = [] \<or> rest = [LF]"
    using r by auto
  have nd: "\<not> is_digit c" using c by (rule unit_not_digit)
  have tw: "takeWhile is_digit s = ds" "dropWhile is_digit s = c # rest"
    using split_digits [OF ds(2) nd] rest(1) by simp_all
  have "match_unit (c # rest) = Some [c]"
    using c rest(2) by (auto simp: at_dollar_def)
  then show "parse_time s = Inr r"
    unfolding parse_time_def re_match_time_eq tw using ds(1) r by simp
qed

lemma parse_state_Inr:
  "parse_state s = Inr r \<longleftrightarrow> wf_state r \<and> (s = r \<or> s = r @ [LF])"
proof
  assume p: "parse_state s = Inr r"
  then obtain g where ne: "takeWhile is_digit s \<noteq> []"
    and m: "match_magnitude (dropWhile is_digit s) = Some g"
    and r: "r = takeWhile is_digit s @ g"
    by (auto simp: parse_state_def re_match_state_eq split: if_splits option.splits)
  have s: "s = takeWhile is_digit s @ dropWhile is_digit s" by simp
  have all: "list_all is_digit (takeWhile is_digit s)"
    by (auto simp: list_all_iff dest: set_takeWhileD)
  from m consider
      (plain) "g = []" "dropWhile is_digit s = [] \<or> dropWhile is_digit s = [LF]"
    | (letter) c where "magnitude_char c" "g = [c]"
        "dropWhile is_digit s = [c] \<or> dropWhile is_digit s = [c, LF]"
    unfolding match_magnitude_Some by blast
  then show "wf_state r \<and> (s = r \<or> s = r @ [LF])"
  proof cases
    case plain
    have "wf_state r"
      using plain(1) r ne all unfolding wf_state_iff by simp
    moreover have "s = r \<or> s = r @ [LF]"
    proof (rule glue)
      show "dropWhile is_digit s = g \<or> dropWhile is_digit s = g @ [LF]"
        using plain by simp
      show "s = takeWhile is_digit s @ dropWhile is_digit s" by simp
      show "r = takeWhile is_digit s @ g" by (rule r)
    qed
    ultimately show ?thesis ..
  next
    case letter
    have "wf_state r"
      using letter(1,2) r ne all unfolding wf_state_iff by blast
    moreover have "s = r \<or> s = r @ [LF]"
    proof (rule glue)
      show "dropWhile is_digit s = g \<or> dropWhile is_digit s = g @ [LF]"
        using letter(2,3) by simp
      show "s = takeWhile is_digit s @ dropWhile is_digit s" by simp
      show "r = takeWhile is_digit s @ g" by (rule r)
    qed
    ultimately show ?thesis ..
  qed
next
  assume a: "wf_state r \<and> (s = r \<or> s = r @ [LF])"
  then have s: "s = r \<or> s = r @ [LF]" by simp
  from a consider
      (plain) "r \<noteq> []" "list_all is_digit r"
    | (letter) ds c where "r = ds @ [c]" "ds \<noteq> []" "list_all is_digit ds" "magnitude_char c"
    unfolding wf_state_iff by blast
  then show "parse_state s = Inr r"
  proof cases
    case plain
    from s show ?thesis
    proof
      assume "s = r"
      then have tw: "takeWhile is_digit s = r" "dropWhile is_digit s = []"
        using all_digits [OF plain(2)] by simp_all
      show ?thesis
        unfolding parse_state_def re_match_state_eq tw using plain(1) by simp
    next
      assume "s = r @ [LF]"
      then have tw: "takeWhile is_digit s = r" "dropWhile is_digit s = [LF]"
        using digits_then_LF [OF plain(2)] by simp_all
      have "match_magnitude [LF] = Some []"
        using LF_not_magnitude by (simp add: at_dollar_def)
      then show ?thesis
        unfolding parse_state_def re_match_state_eq tw using plain(1) by simp
    qed
  next
    case letter
    from s obtain rest where rest: "s = ds @ c # rest" "rest = [] \<or> rest = [LF]"
      using letter(1) by auto
    have nd: "\<not> is_digit c" using letter(4) by (rule magnitude_not_digit)
    have tw: "takeWhile is_digit s = ds" "dropWhile is_digit s = c # rest"
      using split_digits [OF letter(3) nd] rest(1) by simp_all
    have "match_magnitude (c # rest) = Some [c]"
      using letter(4) rest(2) by (auto simp: at_dollar_def)
    then show ?thesis
      unfolding parse_state_def re_match_state_eq tw using letter(1,2) by simp
  qed
qed

lemma parse_time_Inl: "parse_time s = Inl e \<Longrightarrow> e = time_error s"
  by (auto simp: parse_time_def split: option.splits)

lemma parse_state_Inl: "parse_state s = Inl e \<Longrightarrow> e = state_error s"
  by (auto simp: parse_state_def split: option.splits)

section \<open>Lemmas: strings, the lock, paths and command lines\<close>

subsection \<open>strip and newline translation\<close>

lemma universal_newlines_id: "CR \<notin> set s \<Longrightarrow> universal_newlines s = s"
  by (induction s rule: universal_newlines.induct) auto

lemma dropWhile_hd: "s \<noteq> [] \<Longrightarrow> \<not> P (hd s) \<Longrightarrow> dropWhile P s = s"
  by (cases s) auto

lemma strip_id:
  assumes "s = [] \<or> (\<not> is_space (hd s) \<and> \<not> is_space (last s))"
  shows "strip s = s"
proof (cases "s = []")
  case True
  then show ?thesis by (simp add: strip_def)
next
  case False
  with assms have h: "\<not> is_space (hd s)" and l: "\<not> is_space (last s)" by simp_all
  have "dropWhile is_space s = s" using False h by (rule dropWhile_hd)
  moreover have "dropWhile is_space (rev s) = rev s"
    using False l by (intro dropWhile_hd) (simp_all add: hd_rev)
  ultimately show ?thesis by (simp add: strip_def)
qed

subsection \<open>The lock\<close>

lemma create_lock_file_free:
  "lock w = None \<Longrightarrow>
     create_lock_file u w = (None, w\<lparr>lock := Some u, log := log w @ [WriteFile LOCK_FILE u]\<rparr>)"
  by (simp add: create_lock_file_def open_write_def)

lemma create_lock_file_held:
  "lock w = Some h \<Longrightarrow>
     create_lock_file u w =
       (Some (RuntimeError (strip (universal_newlines h) @ '' already running benchmark'')), w)"
  by (simp add: create_lock_file_def open_read_def)

lemma remove_lock_file_free: "lock w = None \<Longrightarrow> remove_lock_file w = (None, w)"
  by (simp add: remove_lock_file_def)

lemma remove_lock_file_held:
  "lock w = Some h \<Longrightarrow>
     remove_lock_file w = (None, w\<lparr>lock := None, log := log w @ [Remove LOCK_FILE]\<rparr>)"
  by (simp add: remove_lock_file_def os_remove_def)

subsection \<open>Paths\<close>

lemma join_nearcore: "wf_tmp t \<Longrightarrow> os_path_join t ''nearcore'' = t @ ''/nearcore''"
  by (simp add: wf_tmp_def os_path_join_def)

lemma dirname_nearcore:
  assumes "wf_tmp t"
  shows "os_path_dirname (t @ ''/nearcore'') = t"
proof -
  from assms obtain bs l where t: "t = bs @ [l]" and l: "l \<noteq> CHR ''/''"
    unfolding wf_tmp_def by (metis append_butlast_last_id)
  show ?thesis
    using l by (simp add: t os_path_dirname_def)
qed

lemma dirname_join: "wf_tmp t \<Longrightarrow> os_path_dirname (os_path_join t ''nearcore'') = t"
  by (simp add: join_nearcore dirname_nearcore)

lemma within_dir_self: "within_dir d d"
  by (simp add: within_dir_def)

lemma within_dir_nearcore: "within_dir t (t @ ''/nearcore'')"
  by (simp add: within_dir_def)

lemma join_not_tmp: "wf_tmp t \<Longrightarrow> os_path_join t ''nearcore'' \<noteq> t"
  by (simp add: join_nearcore)

subsection \<open>Rendering integers\<close>

lemma plain_not_blank: "shell_plain c \<Longrightarrow> \<not> shell_blank c"
  by (auto simp: shell_plain_def shell_blank_def)

lemma digit_shell_plain: "is_digit c \<Longrightarrow> shell_plain c"
  by (auto simp: is_digit_def shell_plain_def)

lemma unit_shell_plain: "unit_char c \<Longrightarrow> shell_plain c"
  by (auto simp: unit_char_def shell_plain_def)

lemma magnitude_shell_plain: "magnitude_char c \<Longrightarrow> shell_plain c"
  by (auto simp: magnitude_char_def shell_plain_def)

lemma minus_shell_plain: "shell_plain CHR ''-''"
  by (simp add: shell_plain_def)

lemma digit_char_plain: "k < 10 \<Longrightarrow> shell_plain (''0123456789'' ! k)"
proof -
  assume "k < 10"
  then have "''0123456789'' ! k \<in> set ''0123456789''"
    by (intro nth_mem) simp
  then have "is_digit (''0123456789'' ! k)"
    by (simp only: is_digit_def)
  then show ?thesis by (rule digit_shell_plain)
qed

lemma str_nat_safe: "safe_word (str_nat n)"
proof (induction n rule: str_nat.induct)
  case (1 n)
  show ?case
  proof (cases "n < 10")
    case True
    then show ?thesis
      using digit_char_plain [of n] by (subst str_nat.simps) (simp add: safe_word_def)
  next
    case False
    then have "safe_word (str_nat (n div 10))" by (rule "1.IH")
    moreover have "shell_plain (''0123456789'' ! (n mod 10))"
      by (rule digit_char_plain) simp
    ultimately show ?thesis
      using False by (subst str_nat.simps) (simp add: safe_word_def)
  qed
qed

lemma str_int_safe: "safe_word (str_int i)"
  using str_nat_safe [of "nat (- i)"] str_nat_safe [of "nat i"] minus_shell_plain
  by (simp add: str_int_def safe_word_def)

subsection \<open>Words of a command line\<close>

lemma split_blank_word: "list_all shell_plain w \<Longrightarrow> split_blank w = [w]"
  by (induction w) (auto simp: plain_not_blank)

lemma split_blank_append:
  "list_all shell_plain w \<Longrightarrow> shell_blank b \<Longrightarrow>
     split_blank (w @ b # rest) = w # split_blank rest"
  by (induction w) (auto simp: plain_not_blank)

lemma sh_words_word: "safe_word w \<Longrightarrow> sh_words w = Some [w]"
  by (simp add: sh_words_def safe_word_def split_blank_word list_all_iff)

lemma sh_words_append:
  assumes "safe_word w" "shell_blank b" "sh_words rest = Some ws"
  shows "sh_words (w @ b # rest) = Some (w # ws)"
proof -
  from assms(3) have r: "list_all (\<lambda>c. shell_plain c \<or> shell_blank c) rest"
    "ws = filter (\<lambda>w. w \<noteq> []) (split_blank rest)"
    by (auto simp: sh_words_def split: if_splits)
  from assms(1) have w: "w \<noteq> []" "list_all shell_plain w"
    by (simp_all add: safe_word_def)
  have "list_all (\<lambda>c. shell_plain c \<or> shell_blank c) (w @ b # rest)"
    using r(1) w(2) assms(2) by (auto simp: list_all_iff)
  then show ?thesis
    using w r(2) assms(2) by (simp add: sh_words_def split_blank_append)
qed

lemma space_blank: "shell_blank CHR '' ''"
  by (simp add: shell_blank_def)

lemma tab_blank: "shell_blank (CHR 0x09)"
  by (simp add: shell_blank_def)

lemma digits_shell_plain: "list_all is_digit ds \<Longrightarrow> list_all shell_plain ds"
  using digit_shell_plain by (auto simp: list_all_iff)

lemma wf_duration_safe:
  assumes "wf_duration r"
  shows "safe_word r"
proof -
  obtain ds c where "r = ds @ [c]" "ds \<noteq> []" "list_all is_digit ds" "unit_char c"
    using assms unfolding wf_duration_iff by blast
  then show ?thesis
    using digits_shell_plain [of ds] unit_shell_plain [of c] by (simp add: safe_word_def)
qed

lemma wf_state_safe:
  assumes "wf_state r"
  shows "safe_word r"
proof -
  consider (plain) "r \<noteq> []" "list_all is_digit r"
    | (letter) ds c where "r = ds @ [c]" "ds \<noteq> []" "list_all is_digit ds" "magnitude_char c"
    using assms unfolding wf_state_iff by blast
  then show ?thesis
  proof cases
    case plain
    then show ?thesis using digits_shell_plain [of r] by (simp add: safe_word_def)
  next
    case letter
    then show ?thesis
      using digits_shell_plain [of ds] magnitude_shell_plain [of c] by (simp add: safe_word_def)
  qed
qed

lemma script_safe: "safe_word ''./scripts/start_benchmark.sh''"
  by (simp add: safe_word_def shell_plain_def)

lemma benchmark_command_cons:
  "benchmark_command t us st sh nd ru u =
      ''./scripts/start_benchmark.sh'' @ CHR '' '' # t @ CHR '' '' # str_int us @ CHR '' '' #
      st @ CHR '' '' # str_int sh @ CHR '' '' # str_int nd @ CHR '' '' # str_int ru @
      CHR '' '' # u"
  by (simp add: benchmark_command_def)

lemma benchmark_command_prefix:
  assumes "safe_word t" "safe_word st" "sh_words u = Some ws"
  shows "sh_words (benchmark_command t us st sh nd ru u) =
     Some (''./scripts/start_benchmark.sh'' # t # str_int us # st # str_int sh # str_int nd #
           str_int ru # ws)"
  unfolding benchmark_command_cons
  by (intro sh_words_append space_blank script_safe str_int_safe assms)

lemma benchmark_command_words:
  assumes "safe_word t" "safe_word st" "safe_word u"
  shows "sh_words (benchmark_command t us st sh nd ru u) =
     Some [''./scripts/start_benchmark.sh'', t, str_int us, st, str_int sh, str_int nd,
           str_int ru, u]"
  using benchmark_command_prefix [OF assms(1,2) sh_words_word [OF assms(3)]] .

section \<open>The validators\<close>

text \<open>
  C5 (duration validator). The validator accepts exactly the strings of the grammar and
  those strings followed by one newline (lemma \<open>parse_time_Inr\<close>), and returns the string
  without that newline. So \<^verbatim>\<open>"30m\n"\<close>, which is not in the grammar, is accepted, and
  what is returned is not the input.
\<close>

theorem parse_time_trailing_newline:
  "parse_time (''30m'' @ [LF]) = Inr ''30m'' \<and> \<not> wf_duration (''30m'' @ [LF])"
proof
  have "wf_duration ''30m''"
    by (simp add: wf_duration_def unit_char_def is_digit_def)
  then show "parse_time (''30m'' @ [LF]) = Inr ''30m''"
    by (simp add: parse_time_Inr)
  show "\<not> wf_duration (''30m'' @ [LF])"
    using LF_not_unit by (simp add: wf_duration_def)
qed

text \<open>
  C6 (state-size validator). As for the duration: a string of the grammar followed by one
  newline is accepted (lemma \<open>parse_state_Inr\<close>) and returned without the newline.
\<close>

theorem parse_state_trailing_newline:
  "parse_state (''500'' @ [LF]) = Inr ''500'' \<and> parse_state (''500K'' @ [LF]) = Inr ''500K'' \<and>
   \<not> wf_state (''500'' @ [LF]) \<and> \<not> wf_state (''500K'' @ [LF])"
proof (intro conjI)
  have "wf_state ''500''"
    by (simp add: wf_state_def is_digit_def)
  then show "parse_state (''500'' @ [LF]) = Inr ''500''"
    by (simp add: parse_state_Inr)
  have "wf_state ''500K''"
    by (simp add: wf_state_def magnitude_char_def is_digit_def)
  then show "parse_state (''500K'' @ [LF]) = Inr ''500K''"
    by (simp add: parse_state_Inr)
  show "\<not> wf_state (''500'' @ [LF])"
    using LF_not_magnitude LF_not_digit by (simp add: wf_state_def)
  show "\<not> wf_state (''500K'' @ [LF])"
    using LF_not_magnitude LF_not_digit by (simp add: wf_state_def)
qed

lemma wf_0h: "wf_duration ''0h''"
  by (simp add: wf_duration_def unit_char_def is_digit_def)

lemma wf_0: "wf_state ''0''"
  by (simp add: wf_state_def is_digit_def)

text \<open>
  C9 (numeric part). The claim that an accepted numeric part is strictly positive fails:
  \<^verbatim>\<open>"0h"\<close> and \<^verbatim>\<open>"0"\<close> are accepted, with numeric part zero.
\<close>

theorem zero_numeric_part_accepted:
  "parse_time ''0h'' = Inr ''0h'' \<and> decimal (takeWhile is_digit ''0h'') = 0 \<and>
   parse_state ''0'' = Inr ''0'' \<and> decimal (takeWhile is_digit ''0'') = 0"
  using wf_0h wf_0 by (simp add: parse_time_Inr parse_state_Inr decimal_def is_digit_def)

text \<open>
  C9, amended: every accepted duration and every accepted state size is in its grammar,
  with a numeric part of one or more decimal digits whose value is zero or more;
  \<^verbatim>\<open>"0h"\<close> and \<^verbatim>\<open>"0"\<close> are accepted.
\<close>

theorem accepted_numeric_part:
  "(parse_time s = Inr r \<longrightarrow> wf_duration r \<and> 0 \<le> decimal (takeWhile is_digit r)) \<and>
   (parse_state s' = Inr r' \<longrightarrow> wf_state r' \<and> 0 \<le> decimal (takeWhile is_digit r')) \<and>
   parse_time ''0h'' = Inr ''0h'' \<and> parse_state ''0'' = Inr ''0''"
  using wf_0h wf_0 by (simp add: parse_time_Inr parse_state_Inr)

theorem accepted_numeric_part_witness:
  "parse_time ''0h'' = Inr ''0h'' \<and> wf_duration ''0h'' \<and>
   parse_state ''0'' = Inr ''0'' \<and> wf_state ''0''"
  using accepted_numeric_part [of "''0h''" "''0h''" "''0''" "''0''"] by blast

section \<open>The run lock\<close>

text \<open>
  C2 (acquisition), as stated: the error reports the marker's content. It reports the
  content as read and stripped; for the content \<^verbatim>\<open>"bob "\<close> that is \<^verbatim>\<open>"bob"\<close>.
\<close>

theorem holder_reported_stripped:
  "fst (create_lock_file ''alice'' \<lparr>lock = Some ''bob '', dirs = [], log = []\<rparr>) =
     Some (RuntimeError ''bob already running benchmark'') \<and>
   fst (create_lock_file ''alice'' \<lparr>lock = Some ''bob '', dirs = [], log = []\<rparr>) \<noteq>
     Some (RuntimeError (''bob '' @ '' already running benchmark''))"
  by (simp add: create_lock_file_held strip_def is_space_def CR_def LF_def)

text \<open>
  C2, amended: with no marker the call succeeds and leaves a marker whose content is the
  identifier; with a marker of content \<open>h\<close> it raises the error that reports \<open>h\<close> as read in
  text mode and stripped of leading and trailing white space (\<open>h\<close> itself when it has no
  carriage return and no white space at either end), and leaves the world as it was.
\<close>

theorem create_lock_file_spec:
  "(lock w = None \<longrightarrow>
      create_lock_file u w =
        (None, w\<lparr>lock := Some u, log := log w @ [WriteFile LOCK_FILE u]\<rparr>)) \<and>
   (lock w = Some h \<longrightarrow>
      create_lock_file u w =
        (Some (RuntimeError (strip (universal_newlines h) @ '' already running benchmark'')), w)) \<and>
   (CR \<notin> set h \<and> (h = [] \<or> (\<not> is_space (hd h) \<and> \<not> is_space (last h))) \<longrightarrow>
      strip (universal_newlines h) = h)"
  by (simp add: create_lock_file_free create_lock_file_held universal_newlines_id strip_id)

theorem create_lock_file_spec_witness:
  "create_lock_file ''alice'' \<lparr>lock = None, dirs = [], log = []\<rparr> =
     (None, \<lparr>lock = Some ''alice'', dirs = [],
             log = [WriteFile ''/tmp/run-ft-benchmark.lock'' ''alice'']\<rparr>) \<and>
   create_lock_file ''alice'' \<lparr>lock = Some ''bob'', dirs = [], log = []\<rparr> =
     (Some (RuntimeError ''bob already running benchmark''),
      \<lparr>lock = Some ''bob'', dirs = [], log = []\<rparr>)"
proof -
  have a: "lock \<lparr>lock = None, dirs = [], log = []\<rparr> = None" by simp
  have b: "lock \<lparr>lock = Some ''bob'', dirs = [], log = []\<rparr> = Some ''bob''" by simp
  have c: "CR \<notin> set ''bob'' \<and> (''bob'' = [] \<or> (\<not> is_space (hd ''bob'') \<and> \<not> is_space (last ''bob'')))"
    by (simp add: CR_def is_space_def)
  from create_lock_file_spec [of "\<lparr>lock = None, dirs = [], log = []\<rparr>" "''alice''" "''bob''"] a
  have 1: "create_lock_file ''alice'' \<lparr>lock = None, dirs = [], log = []\<rparr> =
     (None, \<lparr>lock = Some ''alice'', dirs = [],
             log = [WriteFile ''/tmp/run-ft-benchmark.lock'' ''alice'']\<rparr>)"
    by (simp add: LOCK_FILE_def)
  note t = create_lock_file_spec [of "\<lparr>lock = Some ''bob'', dirs = [], log = []\<rparr>" "''alice''" "''bob''"]
  from t c have s: "strip (universal_newlines ''bob'') = ''bob''" by blast
  from t b have "create_lock_file ''alice'' \<lparr>lock = Some ''bob'', dirs = [], log = []\<rparr> =
     (Some (RuntimeError (strip (universal_newlines ''bob'') @ '' already running benchmark'')),
      \<lparr>lock = Some ''bob'', dirs = [], log = []\<rparr>)"
    by blast
  then have 2: "create_lock_file ''alice'' \<lparr>lock = Some ''bob'', dirs = [], log = []\<rparr> =
     (Some (RuntimeError ''bob already running benchmark''),
      \<lparr>lock = Some ''bob'', dirs = [], log = []\<rparr>)"
    unfolding s by simp
  from 1 2 show ?thesis by simp
qed

text \<open>
  C7 (release). Releasing never raises: the call to \<open>os_remove\<close>, which raises on a
  missing file, is guarded. An existing marker is removed, an absent one leaves the world
  as it is, and a second release changes nothing.
\<close>

theorem remove_lock_file_idempotent:
  "fst (remove_lock_file w) = None \<and>
   lock (snd (remove_lock_file w)) = None \<and>
   (lock w = None \<longrightarrow> snd (remove_lock_file w) = w) \<and>
   (lock w \<noteq> None \<longrightarrow>
      snd (remove_lock_file w) = w\<lparr>lock := None, log := log w @ [Remove LOCK_FILE]\<rparr>) \<and>
   remove_lock_file (snd (remove_lock_file w)) = (None, snd (remove_lock_file w))"
proof (cases "lock w")
  case None
  then show ?thesis by (simp add: remove_lock_file_free)
next
  case (Some h)
  then show ?thesis by (simp add: remove_lock_file_held remove_lock_file_free)
qed

theorem remove_lock_file_idempotent_witness:
  "remove_lock_file \<lparr>lock = Some ''bob'', dirs = [], log = []\<rparr> =
     (None, \<lparr>lock = None, dirs = [], log = [Remove ''/tmp/run-ft-benchmark.lock'']\<rparr>) \<and>
   remove_lock_file \<lparr>lock = None, dirs = [], log = []\<rparr> =
     (None, \<lparr>lock = None, dirs = [], log = []\<rparr>)"
proof -
  have a: "lock \<lparr>lock = Some ''bob'', dirs = [], log = []\<rparr> \<noteq> None" by simp
  have b: "lock \<lparr>lock = None, dirs = [], log = []\<rparr> = None" by simp
  from remove_lock_file_idempotent [of "\<lparr>lock = Some ''bob'', dirs = [], log = []\<rparr>"] a
  have 1: "remove_lock_file \<lparr>lock = Some ''bob'', dirs = [], log = []\<rparr> =
     (None, \<lparr>lock = None, dirs = [], log = [Remove ''/tmp/run-ft-benchmark.lock'']\<rparr>)"
    by (simp add: prod_eq_iff LOCK_FILE_def)
  from remove_lock_file_idempotent [of "\<lparr>lock = None, dirs = [], log = []\<rparr>"] b
  have 2: "remove_lock_file \<lparr>lock = None, dirs = [], log = []\<rparr> =
     (None, \<lparr>lock = None, dirs = [], log = []\<rparr>)"
    by (simp add: prod_eq_iff)
  from 1 2 show ?thesis by simp
qed

section \<open>Lemmas: argument parsing\<close>

lemma store_Inl: "store py_int opt v a = Inl x \<Longrightarrow> x = SystemExit 2"
  by (cases opt) (auto split: sum.splits option.splits)

lemma parse_loop_Inl: "parse_loop py_int argv a = Inl x \<Longrightarrow> x = SystemExit 2"
proof (induction argv arbitrary: a)
  case Nil
  then show ?case by simp
next
  case (Cons p rest)
  obtain opt v where p: "p = (opt, v)" by (cases p)
  show ?case
  proof (cases "store py_int opt v a")
    case (Inl y)
    with Cons.prems p store_Inl [OF Inl] show ?thesis by simp
  next
    case (Inr a')
    with Cons.prems p have "parse_loop py_int rest a' = Inl x" by simp
    then show ?thesis by (rule Cons.IH)
  qed
qed

lemma parse_loop_rejects:
  assumes "(opt, v) \<in> set argv" "\<And>b. isl (store py_int opt v b)"
  shows "parse_loop py_int argv a = Inl (SystemExit 2)"
  using assms(1)
proof (induction argv arbitrary: a)
  case Nil
  then show ?case by simp
next
  case (Cons p rest)
  obtain opt' v' where p: "p = (opt', v')" by (cases p)
  show ?case
  proof (cases "store py_int opt' v' a")
    case (Inl y)
    with p store_Inl [OF Inl] show ?thesis by simp
  next
    case (Inr a')
    have "(opt', v') \<noteq> (opt, v)"
      using Inr assms(2) [of a] by auto
    with Cons.prems p have "(opt, v) \<in> set rest" by auto
    then have "parse_loop py_int rest a' = Inl (SystemExit 2)" by (rule Cons.IH)
    with Inr p show ?thesis by simp
  qed
qed

lemma store_time_rejects: "isl (parse_time v) \<Longrightarrow> isl (store py_int OptTime v b)"
  by (cases "parse_time v") simp_all

lemma store_state_rejects: "isl (parse_state v) \<Longrightarrow> isl (store py_int OptState v b)"
  by (cases "parse_state v") simp_all

lemma parse_time_rejects:
  assumes "\<not> wf_duration v" "\<not> (\<exists>r. wf_duration r \<and> v = r @ [LF])"
  shows "isl (parse_time v)"
proof (cases "parse_time v")
  case (Inl x)
  then show ?thesis by simp
next
  case (Inr r)
  then have "wf_duration r \<and> (v = r \<or> v = r @ [LF])" by (simp only: parse_time_Inr)
  with assms show ?thesis by blast
qed

lemma parse_state_rejects:
  assumes "\<not> wf_state v" "\<not> (\<exists>r. wf_state r \<and> v = r @ [LF])"
  shows "isl (parse_state v)"
proof (cases "parse_state v")
  case (Inl x)
  then show ?thesis by simp
next
  case (Inr r)
  then have "wf_state r \<and> (v = r \<or> v = r @ [LF])" by (simp only: parse_state_Inr)
  with assms show ?thesis by blast
qed

lemma store_validated: "store py_int opt v a = Inr a' \<Longrightarrow> validated a \<Longrightarrow> validated a'"
  by (cases opt) (auto simp: validated_def parse_time_Inr parse_state_Inr split: sum.splits option.splits)

lemma parse_loop_validated:
  "parse_loop py_int argv a = Inr a' \<Longrightarrow> validated a \<Longrightarrow> validated a'"
proof (induction argv arbitrary: a)
  case Nil
  then show ?case by simp
next
  case (Cons p rest)
  obtain opt v where p: "p = (opt, v)" by (cases p)
  show ?case
  proof (cases "store py_int opt v a")
    case (Inl y)
    with Cons.prems p show ?thesis by simp
  next
    case (Inr b)
    with Cons.prems p have "parse_loop py_int rest b = Inr a'" by simp
    moreover have "validated b" using Inr Cons.prems(2) by (rule store_validated)
    ultimately show ?thesis by (rule Cons.IH)
  qed
qed

lemma defaults_validated: "validated defaults"
  by (simp add: validated_def defaults_def wf_duration_def wf_state_def is_digit_def
      unit_char_def magnitude_char_def)

lemma parse_args_validated: "parse_args py_int argv = Inr a \<Longrightarrow> validated a"
  unfolding parse_args_def using parse_loop_validated [OF _ defaults_validated] by blast

lemma parse_no_options: "parse_args (\<lambda>s. None) [] = Inr defaults"
  by (simp add: parse_args_def)

lemma parse_example:
  "parse_args example_int example_argv =
     Inr \<lparr>time = ''2h'', users = 50, state = ''2G'', shards = 4, nodes = 2, rump_up = 10,
          user = ''alice'', commit = Some ''abc123''\<rparr>"
proof -
  have "wf_duration ''2h''" "wf_state ''2G''"
    by (simp_all add: wf_duration_def wf_state_def is_digit_def unit_char_def magnitude_char_def)
  then have "parse_time ''2h'' = Inr ''2h''" "parse_state ''2G'' = Inr ''2G''"
    by (simp_all add: parse_time_Inr parse_state_Inr)
  then show ?thesis
    by (simp add: parse_args_def example_argv_def example_int_def defaults_def)
qed

lemma rejects_2d: "isl (parse_time ''2d'')"
  by (rule parse_time_rejects) (auto simp: wf_duration_def unit_char_def LF_def)

text \<open>
  When a validator rejects a value given for \<^verbatim>\<open>--time\<close> or \<^verbatim>\<open>--state\<close>,
  \<^verbatim>\<open>main\<close> ends in the argument parser with exit status 2 and the world is what it
  was.
\<close>

lemma rejected_argument_no_effect:
  assumes "(\<exists>v. (OptTime, v) \<in> set argv \<and> isl (parse_time v)) \<or>
           (\<exists>v. (OptState, v) \<in> set argv \<and> isl (parse_state v))"
  shows "main py_int argv e w = (Some (SystemExit 2), w)"
proof -
  have "parse_loop py_int argv defaults = Inl (SystemExit 2)"
    using assms
  proof
    assume "\<exists>v. (OptTime, v) \<in> set argv \<and> isl (parse_time v)"
    then obtain v where v: "(OptTime, v) \<in> set argv" "isl (parse_time v)" by blast
    show ?thesis
      using v(1) store_time_rejects [OF v(2)] by (rule parse_loop_rejects)
  next
    assume "\<exists>v. (OptState, v) \<in> set argv \<and> isl (parse_state v)"
    then obtain v where v: "(OptState, v) \<in> set argv" "isl (parse_state v)" by blast
    show ?thesis
      using v(1) store_state_rejects [OF v(2)] by (rule parse_loop_rejects)
  qed
  then show ?thesis by (simp add: main_def parse_args_def)
qed

lemma run_benchmark_eq:
  "run_benchmark rd t us st sh nd ru u e w =
     (if succeeds e (benchmark_command t us st sh nd ru u) (Some rd) then None
      else Some (command_error (benchmark_command t us st sh nd ru u)
             (shell e (benchmark_command t us st sh nd ru u) (Some rd))),
      w\<lparr>log := log w @ [Exec (benchmark_command t us st sh nd ru u) (Some rd)]\<rparr>)"
  by (simp add: run_benchmark_def run_command_def succeeds_def Let_def)

lemma str_int_50: "str_int 50 = ''50''" "str_int 4 = ''4''" "str_int 2 = ''2''" "str_int 10 = ''10''"
  by (simp_all add: str_int_def str_nat.simps)

section \<open>Lemmas: the checkout and the orchestrator\<close>

lemma run_command_eq:
  "run_command e c d w =
     (if succeeds e c d then Inr (strip (stdout (shell e c d)))
      else Inl (command_error c (shell e c d)),
      w\<lparr>log := log w @ [Exec c d]\<rparr>)"
  by (simp add: run_command_def succeeds_def Let_def)

lemma commit_cases:
  obtains (latest) "cm = None" | (empty) "cm = Some []" | (given) c where "cm = Some c" "c \<noteq> []"
  by (cases cm) auto

lemmas checkout_unfold =
  checkout_ok_def checkout_steps_def then_do_def run_command_eq cloned_def
  resolve_commit_def resolved_def checkout_events_def commit_given_def

lemma checkout_steps_ok:
  assumes "checkout_ok cm e"
  shows "checkout_steps (repo_dir_of e) cm e w =
     (Inr (resolved cm e),
      w\<lparr>dirs := repo_dir_of e # dirs w, log := log w @ checkout_events cm e\<rparr>)"
proof (cases cm rule: commit_cases)
  case latest
  with assms show ?thesis by (simp add: checkout_unfold)
next
  case empty
  with assms show ?thesis by (simp add: checkout_unfold)
next
  case (given c)
  with assms show ?thesis by (simp add: checkout_unfold)
qed

lemma checkout_steps_fail:
  assumes "\<not> checkout_ok cm e"
  shows "\<exists>m evs. fst (checkout_steps (repo_dir_of e) cm e w) = Inl (RuntimeError m) \<and>
     lock (snd (checkout_steps (repo_dir_of e) cm e w)) = lock w \<and>
     log (snd (checkout_steps (repo_dir_of e) cm e w)) = log w @ evs \<and>
     list_all is_exec evs \<and>
     (dirs (snd (checkout_steps (repo_dir_of e) cm e w)) = dirs w \<or>
      dirs (snd (checkout_steps (repo_dir_of e) cm e w)) = repo_dir_of e # dirs w)"
proof (cases cm rule: commit_cases)
  case latest
  with assms show ?thesis
    by (auto simp: checkout_unfold command_error_def is_exec_def)
next
  case empty
  with assms show ?thesis
    by (auto simp: checkout_unfold command_error_def is_exec_def)
next
  case (given c)
  with assms show ?thesis
    by (auto simp: checkout_unfold command_error_def is_exec_def)
qed

lemma repo_dir_eq: "wf_tmp (tmp_name e) \<Longrightarrow> repo_dir_of e = tmp_name e @ ''/nearcore''"
  by (simp add: repo_dir_of_def join_nearcore)

lemma within_repo_dir: "wf_tmp (tmp_name e) \<Longrightarrow> within_dir (tmp_name e) (repo_dir_of e)"
  by (simp add: repo_dir_eq within_dir_nearcore)

lemma dirname_repo_dir: "wf_tmp (tmp_name e) \<Longrightarrow> os_path_dirname (repo_dir_of e) = tmp_name e"
  by (simp add: repo_dir_of_def dirname_join)

lemma checkout_repo_ok:
  assumes "checkout_ok cm e"
  shows "checkout_repo cm e w =
     (Inr (repo_dir_of e, resolved cm e),
      w\<lparr>dirs := repo_dir_of e # tmp_name e # dirs w,
        log := log w @ MkDTemp (tmp_name e) # checkout_events cm e\<rparr>)"
  unfolding checkout_repo_def tempfile_mkdtemp_def
  by (simp add: repo_dir_of_def [symmetric] checkout_steps_ok [OF assms] Let_def)

lemma checkout_repo_fail:
  assumes "\<not> checkout_ok cm e" "wf_tmp (tmp_name e)"
  shows "\<exists>m evs. fst (checkout_repo cm e w) = Inl (RuntimeError m) \<and>
     fst (checkout_steps (repo_dir_of e) cm e (snd (tempfile_mkdtemp e w))) = Inl (RuntimeError m) \<and>
     lock (snd (checkout_repo cm e w)) = lock w \<and>
     dirs (snd (checkout_repo cm e w)) = filter (\<lambda>p. \<not> within_dir (tmp_name e) p) (dirs w) \<and>
     log (snd (checkout_repo cm e w)) = log w @ MkDTemp (tmp_name e) # evs @ [RmTree (tmp_name e)] \<and>
     list_all is_exec evs"
proof -
  define w1 where "w1 = snd (tempfile_mkdtemp e w)"
  have w1: "tempfile_mkdtemp e w = (tmp_name e, w1)"
    "lock w1 = lock w" "dirs w1 = tmp_name e # dirs w" "log w1 = log w @ [MkDTemp (tmp_name e)]"
    by (simp_all add: w1_def tempfile_mkdtemp_def)
  obtain r w2 where s: "checkout_steps (repo_dir_of e) cm e w1 = (r, w2)"
    by (cases "checkout_steps (repo_dir_of e) cm e w1")
  from checkout_steps_fail [OF assms(1), of w1] s
  obtain m evs where f: "r = Inl (RuntimeError m)" "lock w2 = lock w1" "log w2 = log w1 @ evs"
    "list_all is_exec evs" "dirs w2 = dirs w1 \<or> dirs w2 = repo_dir_of e # dirs w1"
    by auto
  have t: "tmp_name e \<in> set (dirs w2)"
    using f(5) w1(3) by auto
  have d: "filter (\<lambda>p. \<not> within_dir (tmp_name e) p) (dirs w2) =
      filter (\<lambda>p. \<not> within_dir (tmp_name e) p) (dirs w)"
    using f(5) w1(3) within_repo_dir [OF assms(2)] within_dir_self [of "tmp_name e"] by auto
  have c: "checkout_repo cm e w =
      (Inl (RuntimeError m),
       w2\<lparr>dirs := filter (\<lambda>p. \<not> within_dir (tmp_name e) p) (dirs w2),
          log := log w2 @ [RmTree (tmp_name e)]\<rparr>)"
    unfolding checkout_repo_def w1(1)
    using s f(1) t by (simp add: repo_dir_of_def [symmetric] shutil_rmtree_def Let_def)
  show ?thesis
    using c s f d w1 by (auto simp: w1_def [symmetric])
qed

lemma print_config_eq: "print_config a w = w\<lparr>log := log w @ announce a\<rparr>"
  by (simp add: print_config_def py_print_def announce_def)

lemma orchestrate_held:
  assumes "lock w = Some h"
  shows "orchestrate a e w =
     (None, w\<lparr>lock := None,
              log := log w @ [Print (strip (universal_newlines h) @ '' already running benchmark''),
                              Remove LOCK_FILE]\<rparr>)"
  using assms
  by (simp add: orchestrate_def try_block_def create_lock_file_held finally_block_def finally_steps_def
      py_print_def remove_lock_file_held)

lemma try_block_checkout_fail:
  assumes "lock w = None" "\<not> checkout_ok (commit a) e" "wf_tmp (tmp_name e)"
  shows "\<exists>m evs. fst (try_block a e w) = (Some (RuntimeError m), None) \<and>
     lock (snd (try_block a e w)) = Some (user a) \<and>
     dirs (snd (try_block a e w)) = filter (\<lambda>p. \<not> within_dir (tmp_name e) p) (dirs w) \<and>
     log (snd (try_block a e w)) =
       log w @ WriteFile LOCK_FILE (user a) # announce a @
       MkDTemp (tmp_name e) # evs @ [RmTree (tmp_name e)] \<and>
     list_all is_exec evs"
proof -
  define w2 where "w2 = print_config a
      (w\<lparr>lock := Some (user a), log := log w @ [WriteFile LOCK_FILE (user a)]\<rparr>)"
  have w2: "lock w2 = Some (user a)" "dirs w2 = dirs w"
    "log w2 = log w @ WriteFile LOCK_FILE (user a) # announce a"
    by (simp_all add: w2_def print_config_eq)
  obtain r w3 where c: "checkout_repo (commit a) e w2 = (r, w3)"
    by (cases "checkout_repo (commit a) e w2")
  from checkout_repo_fail [OF assms(2,3), of w2] c
  obtain m evs where f: "r = Inl (RuntimeError m)" "lock w3 = lock w2"
    "dirs w3 = filter (\<lambda>p. \<not> within_dir (tmp_name e) p) (dirs w2)"
    "log w3 = log w2 @ MkDTemp (tmp_name e) # evs @ [RmTree (tmp_name e)]" "list_all is_exec evs"
    by auto
  have "try_block a e w = ((Some (RuntimeError m), None), w3)"
    using assms(1) c f(1)
    by (simp add: try_block_def create_lock_file_free w2_def [symmetric])
  then show ?thesis
    using f w2 by auto
qed

lemma try_block_checkout_ok:
  assumes "lock w = None" "checkout_ok (commit a) e"
  shows "try_block a e w =
     ((if succeeds e (benchmark_command (time a) (users a) (state a) (shards a) (nodes a)
                        (rump_up a) (user a)) (Some (repo_dir_of e))
       then None
       else Some (command_error
              (benchmark_command (time a) (users a) (state a) (shards a) (nodes a)
                 (rump_up a) (user a))
              (shell e (benchmark_command (time a) (users a) (state a) (shards a) (nodes a)
                 (rump_up a) (user a)) (Some (repo_dir_of e)))),
       Some (repo_dir_of e)),
      w\<lparr>lock := Some (user a),
        dirs := repo_dir_of e # tmp_name e # dirs w,
        log := log w @ WriteFile LOCK_FILE (user a) # announce a @
               MkDTemp (tmp_name e) # checkout_events (commit a) e @
               [Print (''Using commit: '' @ resolved (commit a) e),
                Exec (benchmark_command (time a) (users a) (state a) (shards a) (nodes a)
                        (rump_up a) (user a)) (Some (repo_dir_of e))]\<rparr>)"
  using assms
  by (simp add: try_block_def create_lock_file_free checkout_repo_ok run_benchmark_eq
      py_print_def print_config_eq)

lemma filter_workspace:
  assumes "wf_tmp (tmp_name e)"
  shows "filter (\<lambda>p. \<not> within_dir (tmp_name e) p) (repo_dir_of e # tmp_name e # ds) =
     filter (\<lambda>p. \<not> within_dir (tmp_name e) p) ds"
  using within_repo_dir [OF assms] within_dir_self [of "tmp_name e"] by simp

lemma orchestrate_checkout_ok:
  assumes "lock w = None" "checkout_ok (commit a) e" "wf_tmp (tmp_name e)"
  shows "\<exists>tail. fst (orchestrate a e w) = None \<and>
     lock (snd (orchestrate a e w)) = None \<and>
     dirs (snd (orchestrate a e w)) = filter (\<lambda>p. \<not> within_dir (tmp_name e) p) (dirs w) \<and>
     log (snd (orchestrate a e w)) =
       log w @ WriteFile LOCK_FILE (user a) # announce a @
       MkDTemp (tmp_name e) # checkout_events (commit a) e @
       [Print (''Using commit: '' @ resolved (commit a) e),
        Exec (benchmark_command (time a) (users a) (state a) (shards a) (nodes a)
                (rump_up a) (user a)) (Some (repo_dir_of e))] @
       tail @ [Remove LOCK_FILE, RmTree (tmp_name e)] \<and>
     (if succeeds e (benchmark_command (time a) (users a) (state a) (shards a) (nodes a)
                       (rump_up a) (user a)) (Some (repo_dir_of e))
      then tail = [] else (\<exists>m. tail = [Print m]))"
proof (cases "succeeds e (benchmark_command (time a) (users a) (state a) (shards a) (nodes a)
                       (rump_up a) (user a)) (Some (repo_dir_of e))")
  case True
  show ?thesis
    by (rule exI [of _ "[]"])
       (simp add: orchestrate_def try_block_checkout_ok [OF assms(1,2)] True finally_block_def finally_steps_def
          remove_lock_file_held shutil_rmtree_def dirname_repo_dir [OF assms(3)]
          filter_workspace [OF assms(3)] within_dir_self within_repo_dir [OF assms(3)])
next
  case False
  show ?thesis
    by (rule exI [of _ "[Print (''Command '' @ [CHR 0x27] @
            benchmark_command (time a) (users a) (state a) (shards a) (nodes a)
              (rump_up a) (user a) @ [CHR 0x27] @ '' failed with error: '' @
            stderr (shell e (benchmark_command (time a) (users a) (state a) (shards a) (nodes a)
              (rump_up a) (user a)) (Some (repo_dir_of e))))]"])
       (simp add: orchestrate_def try_block_checkout_ok [OF assms(1,2)] False finally_block_def finally_steps_def
          remove_lock_file_held shutil_rmtree_def dirname_repo_dir [OF assms(3)]
          filter_workspace [OF assms(3)] command_error_def py_print_def within_dir_self
          within_repo_dir [OF assms(3)])
qed

lemma orchestrate_checkout_fail:
  assumes "lock w = None" "\<not> checkout_ok (commit a) e" "wf_tmp (tmp_name e)"
  shows "\<exists>m evs. fst (orchestrate a e w) = None \<and>
     lock (snd (orchestrate a e w)) = None \<and>
     dirs (snd (orchestrate a e w)) = filter (\<lambda>p. \<not> within_dir (tmp_name e) p) (dirs w) \<and>
     log (snd (orchestrate a e w)) =
       log w @ WriteFile LOCK_FILE (user a) # announce a @
       MkDTemp (tmp_name e) # evs @ [RmTree (tmp_name e), Print m, Remove LOCK_FILE] \<and>
     list_all is_exec evs"
proof -
  obtain r w1 where t: "try_block a e w = (r, w1)" by (cases "try_block a e w")
  from try_block_checkout_fail [OF assms, of ] t
  obtain m evs where f: "r = (Some (RuntimeError m), None)" "lock w1 = Some (user a)"
    "dirs w1 = filter (\<lambda>p. \<not> within_dir (tmp_name e) p) (dirs w)"
    "log w1 = log w @ WriteFile LOCK_FILE (user a) # announce a @
       MkDTemp (tmp_name e) # evs @ [RmTree (tmp_name e)]"
    "list_all is_exec evs"
    by auto
  have "orchestrate a e w =
      (None, w1\<lparr>lock := None, log := log w1 @ [Print m, Remove LOCK_FILE]\<rparr>)"
    using t f(1,2)
    by (simp add: orchestrate_def finally_block_def finally_steps_def py_print_def remove_lock_file_held)
  then show ?thesis
    using f by auto
qed

lemma exec_only:
  assumes "list_all is_exec evs"
  shows "Remove x \<notin> set evs" "RmTree y \<notin> set evs"
  using assms by (auto simp: list_all_iff is_exec_def)

lemma announce_only: "Remove x \<notin> set (announce a)" "RmTree y \<notin> set (announce a)"
  by (simp_all add: announce_def)

lemma checkout_events_only:
  "Remove x \<notin> set (checkout_events cm e)" "RmTree y \<notin> set (checkout_events cm e)"
  by (simp_all add: checkout_events_def)

lemmas run_unfold =
  main_def parse_args_def defaults_def orchestrate_def try_block_def create_lock_file_def
  open_write_def open_read_def print_config_def py_print_def checkout_repo_def
  tempfile_mkdtemp_def os_path_join_def checkout_steps_def then_do_def run_command_def
  cloned_def resolve_commit_def command_error_def strip_def is_space_def run_benchmark_def
  benchmark_command_def str_int_def str_nat.simps finally_block_def finally_steps_def remove_lock_file_def
  os_remove_def shutil_rmtree_def os_path_dirname_def within_dir_def LOCK_FILE_def
  REPO_URL_def Let_def

lemma wf_example_tmp: "wf_tmp (tmp_name quiet_env)" "wf_tmp (tmp_name fetch_fails_env)"
  by (simp_all add: wf_tmp_def quiet_env_def fetch_fails_env_def)

lemma fetch_fails_not_ok: "\<not> checkout_ok cm fetch_fails_env"
  by (simp add: checkout_ok_def succeeds_def fetch_fails_env_def)

lemma quiet_ok: "checkout_ok cm quiet_env"
  by (simp add: checkout_ok_def succeeds_def quiet_env_def)

section \<open>The workspace\<close>

text \<open>
  C3 (workspace preparation). The temporary directory is created first and the clone goes
  into its subdirectory \<^verbatim>\<open>nearcore\<close>. When every command succeeds, the commands run
  are configuration, clone, fetch, the resolution of \<^verbatim>\<open>origin/master\<close> if no commit was
  specified, and the checkout of the resolved commit, in this order, and the call returns
  the repository path and that commit. When a command fails, the error of that command is
  raised after the whole temporary directory has been removed, which is the last effect.
  The lock marker is not touched.
\<close>

theorem checkout_repo_spec:
  assumes "wf_tmp (tmp_name e)"
  shows "repo_dir_of e = tmp_name e @ ''/nearcore'' \<and>
     lock (snd (checkout_repo cm e w)) = lock w \<and>
     (if checkout_ok cm e
      then checkout_repo cm e w =
             (Inr (repo_dir_of e, resolved cm e),
              w\<lparr>dirs := repo_dir_of e # tmp_name e # dirs w,
                log := log w @ MkDTemp (tmp_name e) # checkout_events cm e\<rparr>)
      else (\<exists>m evs.
             fst (checkout_repo cm e w) = Inl (RuntimeError m) \<and>
             fst (checkout_steps (repo_dir_of e) cm e (snd (tempfile_mkdtemp e w))) =
               Inl (RuntimeError m) \<and>
             (\<forall>p \<in> set (dirs (snd (checkout_repo cm e w))). \<not> within_dir (tmp_name e) p) \<and>
             log (snd (checkout_repo cm e w)) =
               log w @ MkDTemp (tmp_name e) # evs @ [RmTree (tmp_name e)] \<and>
             list_all is_exec evs)) \<and>
     (\<not> commit_given cm \<longrightarrow>
        resolved cm e =
          strip (stdout (shell e ''git rev-parse origin/master'' (Some (repo_dir_of e)))) \<and>
        checkout_events cm e =
          [Exec ''git config --global http.postBuffer 524288000'' None,
           Exec (''git clone '' @ REPO_URL @ '' '' @ repo_dir_of e) None,
           Exec ''git fetch'' (Some (repo_dir_of e)),
           Exec ''git rev-parse origin/master'' (Some (repo_dir_of e)),
           Exec (''git checkout '' @ resolved cm e) (Some (repo_dir_of e))])"
proof (intro conjI)
  show "repo_dir_of e = tmp_name e @ ''/nearcore''"
    using assms by (rule repo_dir_eq)
  show "lock (snd (checkout_repo cm e w)) = lock w"
  proof (cases "checkout_ok cm e")
    case True
    then show ?thesis by (simp add: checkout_repo_ok)
  next
    case False
    from checkout_repo_fail [OF False assms, of w] show ?thesis by blast
  qed
  show "if checkout_ok cm e
      then checkout_repo cm e w =
             (Inr (repo_dir_of e, resolved cm e),
              w\<lparr>dirs := repo_dir_of e # tmp_name e # dirs w,
                log := log w @ MkDTemp (tmp_name e) # checkout_events cm e\<rparr>)
      else (\<exists>m evs.
             fst (checkout_repo cm e w) = Inl (RuntimeError m) \<and>
             fst (checkout_steps (repo_dir_of e) cm e (snd (tempfile_mkdtemp e w))) =
               Inl (RuntimeError m) \<and>
             (\<forall>p \<in> set (dirs (snd (checkout_repo cm e w))). \<not> within_dir (tmp_name e) p) \<and>
             log (snd (checkout_repo cm e w)) =
               log w @ MkDTemp (tmp_name e) # evs @ [RmTree (tmp_name e)] \<and>
             list_all is_exec evs)"
  proof (cases "checkout_ok cm e")
    case True
    then show ?thesis by (simp add: checkout_repo_ok)
  next
    case False
    from checkout_repo_fail [OF False assms, of w]
    obtain m evs where f: "fst (checkout_repo cm e w) = Inl (RuntimeError m)"
      "fst (checkout_steps (repo_dir_of e) cm e (snd (tempfile_mkdtemp e w))) =
         Inl (RuntimeError m)"
      "dirs (snd (checkout_repo cm e w)) = filter (\<lambda>p. \<not> within_dir (tmp_name e) p) (dirs w)"
      "log (snd (checkout_repo cm e w)) =
         log w @ MkDTemp (tmp_name e) # evs @ [RmTree (tmp_name e)]"
      "list_all is_exec evs"
      by blast
    have "\<forall>p \<in> set (dirs (snd (checkout_repo cm e w))). \<not> within_dir (tmp_name e) p"
      unfolding f(3) by simp
    with f False show ?thesis by auto
  qed
  show "\<not> commit_given cm \<longrightarrow>
        resolved cm e =
          strip (stdout (shell e ''git rev-parse origin/master'' (Some (repo_dir_of e)))) \<and>
        checkout_events cm e =
          [Exec ''git config --global http.postBuffer 524288000'' None,
           Exec (''git clone '' @ REPO_URL @ '' '' @ repo_dir_of e) None,
           Exec ''git fetch'' (Some (repo_dir_of e)),
           Exec ''git rev-parse origin/master'' (Some (repo_dir_of e)),
           Exec (''git checkout '' @ resolved cm e) (Some (repo_dir_of e))]"
    by (cases cm rule: commit_cases) (simp_all add: commit_given_def resolved_def checkout_events_def)
qed

text \<open>
  The property at work: no commit specified, every command succeeds.
\<close>

theorem checkout_repo_spec_witness:
  "wf_tmp (tmp_name quiet_env) \<and> checkout_ok None quiet_env \<and> \<not> commit_given None \<and>
   checkout_repo None quiet_env empty_world =
     (Inr (''/tmp/tmpab12/nearcore'', ''abc123''),
      \<lparr>lock = None, dirs = [''/tmp/tmpab12/nearcore'', ''/tmp/tmpab12''],
       log = [MkDTemp ''/tmp/tmpab12'',
              Exec ''git config --global http.postBuffer 524288000'' None,
              Exec ''git clone https://github.com/near/nearcore /tmp/tmpab12/nearcore'' None,
              Exec ''git fetch'' (Some ''/tmp/tmpab12/nearcore''),
              Exec ''git rev-parse origin/master'' (Some ''/tmp/tmpab12/nearcore''),
              Exec ''git checkout abc123'' (Some ''/tmp/tmpab12/nearcore'')]\<rparr>)"
proof -
  note t = checkout_repo_spec [OF wf_example_tmp(1), of None empty_world]
  have g: "\<not> commit_given None" by (simp add: commit_given_def)
  from t have r: "repo_dir_of quiet_env = tmp_name quiet_env @ ''/nearcore''" by blast
  from t g have v: "resolved None quiet_env =
      strip (stdout (shell quiet_env ''git rev-parse origin/master'' (Some (repo_dir_of quiet_env))))"
    by blast
  from t g have ev: "checkout_events None quiet_env =
      [Exec ''git config --global http.postBuffer 524288000'' None,
       Exec (''git clone '' @ REPO_URL @ '' '' @ repo_dir_of quiet_env) None,
       Exec ''git fetch'' (Some (repo_dir_of quiet_env)),
       Exec ''git rev-parse origin/master'' (Some (repo_dir_of quiet_env)),
       Exec (''git checkout '' @ resolved None quiet_env) (Some (repo_dir_of quiet_env))]"
    by blast
  from t quiet_ok [of None] have c: "checkout_repo None quiet_env empty_world =
      (Inr (repo_dir_of quiet_env, resolved None quiet_env),
       empty_world\<lparr>dirs := repo_dir_of quiet_env # tmp_name quiet_env # dirs empty_world,
         log := log empty_world @ MkDTemp (tmp_name quiet_env) # checkout_events None quiet_env\<rparr>)"
    by (simp only: if_True)
  have v': "resolved None quiet_env = ''abc123''"
    unfolding v by (simp add: quiet_env_def strip_def is_space_def)
  have r': "repo_dir_of quiet_env = ''/tmp/tmpab12/nearcore''"
    unfolding r by (simp add: quiet_env_def)
  have "checkout_repo None quiet_env empty_world =
     (Inr (''/tmp/tmpab12/nearcore'', ''abc123''),
      \<lparr>lock = None, dirs = [''/tmp/tmpab12/nearcore'', ''/tmp/tmpab12''],
       log = [MkDTemp ''/tmp/tmpab12'',
              Exec ''git config --global http.postBuffer 524288000'' None,
              Exec ''git clone https://github.com/near/nearcore /tmp/tmpab12/nearcore'' None,
              Exec ''git fetch'' (Some ''/tmp/tmpab12/nearcore''),
              Exec ''git rev-parse origin/master'' (Some ''/tmp/tmpab12/nearcore''),
              Exec ''git checkout abc123'' (Some ''/tmp/tmpab12/nearcore'')]\<rparr>)"
    unfolding c ev v' r' by (simp add: empty_world_def quiet_env_def REPO_URL_def)
  with wf_example_tmp(1) quiet_ok g show ?thesis by blast
qed

section \<open>The orchestrator\<close>

text \<open>
  C10 (a failed acquisition removes the marker). When a marker is present, the run prints
  the error and its \<^verbatim>\<open>finally\<close> block removes the marker, which another run wrote;
  the next acquisition succeeds.
\<close>

theorem failed_acquisition_removes_marker:
  assumes "parse_args py_int argv = Inr a" "lock w = Some h"
  shows "main py_int argv e w =
     (None, w\<lparr>lock := None,
              log := log w @ [Print (strip (universal_newlines h) @ '' already running benchmark''),
                              Remove LOCK_FILE]\<rparr>) \<and>
     fst (create_lock_file u (snd (main py_int argv e w))) = None"
  using assms by (simp add: main_def orchestrate_held create_lock_file_free)

text \<open>
  The property at work: the marker of \<^verbatim>\<open>bob\<close>.
\<close>

theorem failed_acquisition_removes_marker_witness:
  "main (\<lambda>s. None) [] quiet_env \<lparr>lock = Some ''bob'', dirs = [], log = []\<rparr> =
     (None, \<lparr>lock = None, dirs = [],
             log = [Print ''bob already running benchmark'',
                    Remove ''/tmp/run-ft-benchmark.lock'']\<rparr>) \<and>
   fst (create_lock_file ''alice''
         (snd (main (\<lambda>s. None) [] quiet_env \<lparr>lock = Some ''bob'', dirs = [], log = []\<rparr>))) = None"
proof -
  have l: "lock \<lparr>lock = Some ''bob'', dirs = [], log = []\<rparr> = Some ''bob''" by simp
  have s: "strip (universal_newlines ''bob'') = ''bob''"
    by (simp add: strip_def is_space_def CR_def)
  note t = failed_acquisition_removes_marker [OF parse_no_options l, of quiet_env "''alice''"]
  from t have 1: "main (\<lambda>s. None) [] quiet_env \<lparr>lock = Some ''bob'', dirs = [], log = []\<rparr> =
     (None, \<lparr>lock = Some ''bob'', dirs = [], log = []\<rparr>\<lparr>lock := None,
        log := log \<lparr>lock = Some ''bob'', dirs = [], log = []\<rparr> @
          [Print (strip (universal_newlines ''bob'') @ '' already running benchmark''),
           Remove LOCK_FILE]\<rparr>)"
    by blast
  from t have 2: "fst (create_lock_file ''alice''
         (snd (main (\<lambda>s. None) [] quiet_env \<lparr>lock = Some ''bob'', dirs = [], log = []\<rparr>))) = None"
    by blast
  have 3: "main (\<lambda>s. None) [] quiet_env \<lparr>lock = Some ''bob'', dirs = [], log = []\<rparr> =
     (None, \<lparr>lock = None, dirs = [],
             log = [Print ''bob already running benchmark'',
                    Remove ''/tmp/run-ft-benchmark.lock'']\<rparr>)"
    unfolding 1 s by (simp add: LOCK_FILE_def)
  from 3 2 show ?thesis by (rule conjI)
qed

section \<open>Validation and the final newline\<close>

lemma parse_30m_newline: "parse_time [CHR ''3'', CHR ''0'', CHR ''m'', LF] = Inr ''30m''"
proof -
  have "wf_duration ''30m''"
    by (simp add: wf_duration_def unit_char_def is_digit_def)
  then show ?thesis by (simp add: parse_time_Inr)
qed

text \<open>
  C8 (a malformed duration or state size fails before any side effect). A value that the
  validator rejects does end the run in the argument parser, with the world unchanged
  (lemma \<open>rejected_argument_no_effect\<close>). But \<^verbatim>\<open>--time "30m\n"\<close> is malformed, the
  string is not in the grammar, and the validator accepts it: the run acquires the lock,
  creates the workspace and runs every command, the benchmark included.
\<close>

theorem malformed_time_proceeds:
  "\<not> wf_duration (''30m'' @ [LF]) \<and>
   main (\<lambda>s. None) [(OptTime, ''30m'' @ [LF])] quiet_env empty_world =
     (None,
      \<lparr>lock = None, dirs = [],
       log = [WriteFile ''/tmp/run-ft-benchmark.lock'' ''default_user'',
              Print ''Time: 30m'', Print ''Users: 100'', Print ''State: 1G'',
              Print ''Shards: 1'', Print ''Nodes: 1'', Print ''Rump-up: 5'',
              Print ''User: default_user'', MkDTemp ''/tmp/tmpab12'',
              Exec ''git config --global http.postBuffer 524288000'' None,
              Exec ''git clone https://github.com/near/nearcore /tmp/tmpab12/nearcore'' None,
              Exec ''git fetch'' (Some ''/tmp/tmpab12/nearcore''),
              Exec ''git rev-parse origin/master'' (Some ''/tmp/tmpab12/nearcore''),
              Exec ''git checkout abc123'' (Some ''/tmp/tmpab12/nearcore''),
              Print ''Using commit: abc123'',
              Exec ''./scripts/start_benchmark.sh 30m 100 1G 1 1 5 default_user''
                (Some ''/tmp/tmpab12/nearcore''),
              Remove ''/tmp/run-ft-benchmark.lock'', RmTree ''/tmp/tmpab12'']\<rparr>)"
proof
  show "\<not> wf_duration (''30m'' @ [LF])"
    using LF_not_unit by (simp add: wf_duration_def)
  show "main (\<lambda>s. None) [(OptTime, ''30m'' @ [LF])] quiet_env empty_world =
     (None,
      \<lparr>lock = None, dirs = [],
       log = [WriteFile ''/tmp/run-ft-benchmark.lock'' ''default_user'',
              Print ''Time: 30m'', Print ''Users: 100'', Print ''State: 1G'',
              Print ''Shards: 1'', Print ''Nodes: 1'', Print ''Rump-up: 5'',
              Print ''User: default_user'', MkDTemp ''/tmp/tmpab12'',
              Exec ''git config --global http.postBuffer 524288000'' None,
              Exec ''git clone https://github.com/near/nearcore /tmp/tmpab12/nearcore'' None,
              Exec ''git fetch'' (Some ''/tmp/tmpab12/nearcore''),
              Exec ''git rev-parse origin/master'' (Some ''/tmp/tmpab12/nearcore''),
              Exec ''git checkout abc123'' (Some ''/tmp/tmpab12/nearcore''),
              Print ''Using commit: abc123'',
              Exec ''./scripts/start_benchmark.sh 30m 100 1G 1 1 5 default_user''
                (Some ''/tmp/tmpab12/nearcore''),
              Remove ''/tmp/run-ft-benchmark.lock'', RmTree ''/tmp/tmpab12'']\<rparr>)"
    by (simp add: run_unfold parse_30m_newline quiet_env_def empty_world_def)
qed

section \<open>The benchmark invocation\<close>

lemma safe_alice: "safe_word ''alice''" "safe_word ''bob''" "safe_word ''2h''" "safe_word ''2G''"
  by (simp_all add: safe_word_def shell_plain_def)

text \<open>
  C4 (benchmark command), as stated: the arguments are exactly the seven fields. The
  fields are put into one command line, unquoted, and handed to the shell, so a user
  identifier with a space or a tab in it arrives as two arguments.
\<close>

theorem benchmark_words_split_user:
  "parse_time ''2h'' = Inr ''2h'' \<and> parse_state ''2G'' = Inr ''2G'' \<and>
   sh_words (benchmark_command ''2h'' 50 ''2G'' 4 2 10 ''alice bob'') =
     Some [''./scripts/start_benchmark.sh'', ''2h'', ''50'', ''2G'', ''4'', ''2'', ''10'',
           ''alice'', ''bob''] \<and>
   sh_words (benchmark_command ''2h'' 50 ''2G'' 4 2 10 (''alice'' @ [CHR 0x09] @ ''bob'')) =
     Some [''./scripts/start_benchmark.sh'', ''2h'', ''50'', ''2G'', ''4'', ''2'', ''10'',
           ''alice'', ''bob''] \<and>
   sh_words (benchmark_command ''2h'' 50 ''2G'' 4 2 10 ''alice bob'') \<noteq>
     Some [''./scripts/start_benchmark.sh'', ''2h'', ''50'', ''2G'', ''4'', ''2'', ''10'',
           ''alice bob'']"
proof -
  have "wf_duration ''2h''" "wf_state ''2G''"
    by (simp_all add: wf_duration_def wf_state_def is_digit_def unit_char_def magnitude_char_def)
  then have p: "parse_time ''2h'' = Inr ''2h''" "parse_state ''2G'' = Inr ''2G''"
    by (simp_all add: parse_time_Inr parse_state_Inr)
  have u1: "sh_words (''alice'' @ CHR '' '' # ''bob'') = Some [''alice'', ''bob'']"
    by (intro sh_words_append sh_words_word safe_alice space_blank)
  have u2: "sh_words (''alice'' @ CHR 0x09 # ''bob'') = Some [''alice'', ''bob'']"
    by (intro sh_words_append sh_words_word safe_alice tab_blank)
  have 1: "sh_words (benchmark_command ''2h'' 50 ''2G'' 4 2 10 ''alice bob'') =
     Some [''./scripts/start_benchmark.sh'', ''2h'', ''50'', ''2G'', ''4'', ''2'', ''10'',
           ''alice'', ''bob'']"
    using benchmark_command_prefix [OF safe_alice(3,4) u1, of 50 4 2 10]
    by (simp add: str_int_50)
  have 2: "sh_words (benchmark_command ''2h'' 50 ''2G'' 4 2 10 (''alice'' @ [CHR 0x09] @ ''bob'')) =
     Some [''./scripts/start_benchmark.sh'', ''2h'', ''50'', ''2G'', ''4'', ''2'', ''10'',
           ''alice'', ''bob'']"
    using benchmark_command_prefix [OF safe_alice(3,4) u2, of 50 4 2 10]
    by (simp add: str_int_50)
  from p 1 2 show ?thesis by simp
qed

text \<open>
  C4, amended: for every parsed configuration the benchmark is one shell command, whose
  command line is the script path followed by the seven fields in the order duration,
  users, state size, shards, nodes, ramp-up, user, each after one space and none quoted.
  In a run it is the last step of the \<^verbatim>\<open>try\<close> block, executed with the directory of
  the clone, which exists then, as working directory. The shell passes exactly the seven
  fields to the script whenever the user identifier is not empty and made of plain
  characters only; nothing is said of other user identifiers.
\<close>

theorem benchmark_invocation:
  assumes "parse_args py_int argv = Inr a"
  shows "snd (run_benchmark rd (time a) (users a) (state a) (shards a) (nodes a) (rump_up a)
              (user a) e w) =
           w\<lparr>log := log w @ [Exec (benchmark_command (time a) (users a) (state a) (shards a)
                                  (nodes a) (rump_up a) (user a)) (Some rd)]\<rparr> \<and>
         benchmark_command (time a) (users a) (state a) (shards a) (nodes a) (rump_up a) (user a) =
           ''./scripts/start_benchmark.sh'' @ '' '' @ time a @ '' '' @ str_int (users a) @ '' '' @
           state a @ '' '' @ str_int (shards a) @ '' '' @ str_int (nodes a) @ '' '' @
           str_int (rump_up a) @ '' '' @ user a \<and>
         (safe_word (user a) \<longrightarrow>
            sh_words (benchmark_command (time a) (users a) (state a) (shards a) (nodes a)
                        (rump_up a) (user a)) =
              Some [''./scripts/start_benchmark.sh'', time a, str_int (users a), state a,
                    str_int (shards a), str_int (nodes a), str_int (rump_up a), user a]) \<and>
         (lock w = None \<and> checkout_ok (commit a) e \<longrightarrow>
            snd (try_block a e w) =
              w\<lparr>lock := Some (user a),
                dirs := repo_dir_of e # tmp_name e # dirs w,
                log := log w @ WriteFile LOCK_FILE (user a) # announce a @
                       MkDTemp (tmp_name e) # checkout_events (commit a) e @
                       [Print (''Using commit: '' @ resolved (commit a) e),
                        Exec (benchmark_command (time a) (users a) (state a) (shards a)
                                (nodes a) (rump_up a) (user a)) (Some (repo_dir_of e))]\<rparr>)"
proof -
  from assms have "validated a" by (rule parse_args_validated)
  then have s: "safe_word (time a)" "safe_word (state a)"
    by (simp_all add: validated_def wf_duration_safe wf_state_safe)
  have 1: "snd (run_benchmark rd (time a) (users a) (state a) (shards a) (nodes a) (rump_up a)
              (user a) e w) =
           w\<lparr>log := log w @ [Exec (benchmark_command (time a) (users a) (state a) (shards a)
                                  (nodes a) (rump_up a) (user a)) (Some rd)]\<rparr>"
    by (simp add: run_benchmark_eq)
  have 2: "benchmark_command (time a) (users a) (state a) (shards a) (nodes a) (rump_up a) (user a) =
           ''./scripts/start_benchmark.sh'' @ '' '' @ time a @ '' '' @ str_int (users a) @ '' '' @
           state a @ '' '' @ str_int (shards a) @ '' '' @ str_int (nodes a) @ '' '' @
           str_int (rump_up a) @ '' '' @ user a"
    by (simp add: benchmark_command_def)
  have 3: "safe_word (user a) \<longrightarrow>
            sh_words (benchmark_command (time a) (users a) (state a) (shards a) (nodes a)
                        (rump_up a) (user a)) =
              Some [''./scripts/start_benchmark.sh'', time a, str_int (users a), state a,
                    str_int (shards a), str_int (nodes a), str_int (rump_up a), user a]"
    using s by (simp add: benchmark_command_words)
  have 4: "lock w = None \<and> checkout_ok (commit a) e \<longrightarrow>
            snd (try_block a e w) =
              w\<lparr>lock := Some (user a),
                dirs := repo_dir_of e # tmp_name e # dirs w,
                log := log w @ WriteFile LOCK_FILE (user a) # announce a @
                       MkDTemp (tmp_name e) # checkout_events (commit a) e @
                       [Print (''Using commit: '' @ resolved (commit a) e),
                        Exec (benchmark_command (time a) (users a) (state a) (shards a)
                                (nodes a) (rump_up a) (user a)) (Some (repo_dir_of e))]\<rparr>"
    by (simp add: try_block_checkout_ok)
  from 1 2 3 4 show ?thesis by (intro conjI)
qed

text \<open>
  The property at work: the configuration of the scenario, with the arguments
  \<^verbatim>\<open>2h 50 2G 4 2 10 alice\<close>, run on its own in the workspace and inside the
  \<^verbatim>\<open>try\<close> block.
\<close>

theorem benchmark_invocation_witness:
  "parse_args example_int example_argv =
     Inr \<lparr>time = ''2h'', users = 50, state = ''2G'', shards = 4, nodes = 2, rump_up = 10,
          user = ''alice'', commit = Some ''abc123''\<rparr> \<and>
   safe_word ''alice'' \<and> lock empty_world = None \<and> checkout_ok (Some ''abc123'') quiet_env \<and>
   sh_words ''./scripts/start_benchmark.sh 2h 50 2G 4 2 10 alice'' =
     Some [''./scripts/start_benchmark.sh'', ''2h'', ''50'', ''2G'', ''4'', ''2'', ''10'', ''alice''] \<and>
   snd (run_benchmark ''/tmp/tmpab12/nearcore'' ''2h'' 50 ''2G'' 4 2 10 ''alice'' quiet_env
          workspace_world) =
     \<lparr>lock = Some ''alice'', dirs = [''/tmp/tmpab12/nearcore'', ''/tmp/tmpab12''],
      log = [Exec ''./scripts/start_benchmark.sh 2h 50 2G 4 2 10 alice''
               (Some ''/tmp/tmpab12/nearcore'')]\<rparr> \<and>
   snd (try_block \<lparr>time = ''2h'', users = 50, state = ''2G'', shards = 4, nodes = 2,
                   rump_up = 10, user = ''alice'', commit = Some ''abc123''\<rparr>
          quiet_env empty_world) =
     \<lparr>lock = Some ''alice'', dirs = [''/tmp/tmpab12/nearcore'', ''/tmp/tmpab12''],
      log = [WriteFile ''/tmp/run-ft-benchmark.lock'' ''alice'',
             Print ''Time: 2h'', Print ''Users: 50'', Print ''State: 2G'',
             Print ''Shards: 4'', Print ''Nodes: 2'', Print ''Rump-up: 10'',
             Print ''User: alice'', MkDTemp ''/tmp/tmpab12'',
             Exec ''git config --global http.postBuffer 524288000'' None,
             Exec ''git clone https://github.com/near/nearcore /tmp/tmpab12/nearcore'' None,
             Exec ''git fetch'' (Some ''/tmp/tmpab12/nearcore''),
             Exec ''git checkout abc123'' (Some ''/tmp/tmpab12/nearcore''),
             Print ''Using commit: abc123'',
             Exec ''./scripts/start_benchmark.sh 2h 50 2G 4 2 10 alice''
               (Some ''/tmp/tmpab12/nearcore'')]\<rparr>"
proof -
  have p: "safe_word ''alice''" by (rule safe_alice(1))
  have l: "lock empty_world = None" by (simp add: empty_world_def)
  have k: "checkout_ok (Some ''abc123'') quiet_env" by (rule quiet_ok)
  have b: "benchmark_command ''2h'' 50 ''2G'' 4 2 10 ''alice'' =
      ''./scripts/start_benchmark.sh 2h 50 2G 4 2 10 alice''"
    by (simp add: benchmark_command_def str_int_50)
  note t1 = benchmark_invocation [OF parse_example, of "''/tmp/tmpab12/nearcore''" quiet_env
      workspace_world]
  note t2 = benchmark_invocation [OF parse_example, of "''/tmp/tmpab12/nearcore''" quiet_env
      empty_world]
  from t1 p have 1: "sh_words ''./scripts/start_benchmark.sh 2h 50 2G 4 2 10 alice'' =
     Some [''./scripts/start_benchmark.sh'', ''2h'', ''50'', ''2G'', ''4'', ''2'', ''10'', ''alice'']"
    by (simp add: b str_int_50)
  from t1 have 2: "snd (run_benchmark ''/tmp/tmpab12/nearcore'' ''2h'' 50 ''2G'' 4 2 10 ''alice''
          quiet_env workspace_world) =
     \<lparr>lock = Some ''alice'', dirs = [''/tmp/tmpab12/nearcore'', ''/tmp/tmpab12''],
      log = [Exec ''./scripts/start_benchmark.sh 2h 50 2G 4 2 10 alice''
               (Some ''/tmp/tmpab12/nearcore'')]\<rparr>"
    by (simp add: b workspace_world_def)
  have e: "repo_dir_of quiet_env = ''/tmp/tmpab12/nearcore''" "tmp_name quiet_env = ''/tmp/tmpab12''"
    "resolved (Some ''abc123'') quiet_env = ''abc123''"
    "checkout_events (Some ''abc123'') quiet_env =
       [Exec ''git config --global http.postBuffer 524288000'' None,
        Exec ''git clone https://github.com/near/nearcore /tmp/tmpab12/nearcore'' None,
        Exec ''git fetch'' (Some ''/tmp/tmpab12/nearcore''),
        Exec ''git checkout abc123'' (Some ''/tmp/tmpab12/nearcore'')]"
    by (simp_all add: repo_dir_of_def os_path_join_def quiet_env_def resolved_def
        checkout_events_def commit_given_def REPO_URL_def)
  from t2 l k have 3: "snd (try_block \<lparr>time = ''2h'', users = 50, state = ''2G'', shards = 4,
                   nodes = 2, rump_up = 10, user = ''alice'', commit = Some ''abc123''\<rparr>
          quiet_env empty_world) =
     \<lparr>lock = Some ''alice'', dirs = [''/tmp/tmpab12/nearcore'', ''/tmp/tmpab12''],
      log = [WriteFile ''/tmp/run-ft-benchmark.lock'' ''alice'',
             Print ''Time: 2h'', Print ''Users: 50'', Print ''State: 2G'',
             Print ''Shards: 4'', Print ''Nodes: 2'', Print ''Rump-up: 10'',
             Print ''User: alice'', MkDTemp ''/tmp/tmpab12'',
             Exec ''git config --global http.postBuffer 524288000'' None,
             Exec ''git clone https://github.com/near/nearcore /tmp/tmpab12/nearcore'' None,
             Exec ''git fetch'' (Some ''/tmp/tmpab12/nearcore''),
             Exec ''git checkout abc123'' (Some ''/tmp/tmpab12/nearcore''),
             Print ''Using commit: abc123'',
             Exec ''./scripts/start_benchmark.sh 2h 50 2G 4 2 10 alice''
               (Some ''/tmp/tmpab12/nearcore'')]\<rparr>"
    by (simp add: b e announce_def str_int_50 empty_world_def LOCK_FILE_def)
  from parse_example p l k 1 2 3 show ?thesis by (intro conjI)
qed

section \<open>Cleanup\<close>

lemma run_cleanup:
  assumes "parse_args py_int argv = Inr a" "lock w = None" "wf_tmp (tmp_name e)"
  shows "fst (main py_int argv e w) = None \<and>
     lock (snd (main py_int argv e w)) = None \<and>
     (\<forall>p \<in> set (dirs (snd (main py_int argv e w))). \<not> within_dir (tmp_name e) p) \<and>
     (if checkout_ok (commit a) e
      then (\<exists>pre. log (snd (main py_int argv e w)) =
                    log w @ pre @ [Remove LOCK_FILE, RmTree (tmp_name e)] \<and>
                  Exec (benchmark_command (time a) (users a) (state a) (shards a) (nodes a)
                          (rump_up a) (user a)) (Some (repo_dir_of e)) \<in> set pre \<and>
                  Remove LOCK_FILE \<notin> set pre \<and> RmTree (tmp_name e) \<notin> set pre)
      else (\<exists>pre m. log (snd (main py_int argv e w)) =
                      log w @ pre @ [RmTree (tmp_name e), Print m, Remove LOCK_FILE] \<and>
                    Remove LOCK_FILE \<notin> set pre \<and> RmTree (tmp_name e) \<notin> set pre))"
proof -
  have m: "main py_int argv e w = orchestrate a e w"
    using assms(1) by (simp add: main_def)
  show ?thesis
  proof (cases "checkout_ok (commit a) e")
    case True
    from orchestrate_checkout_ok [OF assms(2) True assms(3)]
    obtain tail where o: "fst (orchestrate a e w) = None"
      "lock (snd (orchestrate a e w)) = None"
      "dirs (snd (orchestrate a e w)) = filter (\<lambda>p. \<not> within_dir (tmp_name e) p) (dirs w)"
      "log (snd (orchestrate a e w)) =
         log w @ WriteFile LOCK_FILE (user a) # announce a @
         MkDTemp (tmp_name e) # checkout_events (commit a) e @
         [Print (''Using commit: '' @ resolved (commit a) e),
          Exec (benchmark_command (time a) (users a) (state a) (shards a) (nodes a)
                  (rump_up a) (user a)) (Some (repo_dir_of e))] @
         tail @ [Remove LOCK_FILE, RmTree (tmp_name e)]"
      "tail = [] \<or> (\<exists>m. tail = [Print m])"
      by (auto split: if_splits)
    define pre where "pre = WriteFile LOCK_FILE (user a) # announce a @
         MkDTemp (tmp_name e) # checkout_events (commit a) e @
         [Print (''Using commit: '' @ resolved (commit a) e),
          Exec (benchmark_command (time a) (users a) (state a) (shards a) (nodes a)
                  (rump_up a) (user a)) (Some (repo_dir_of e))] @ tail"
    have l: "log (snd (orchestrate a e w)) = log w @ pre @ [Remove LOCK_FILE, RmTree (tmp_name e)]"
      unfolding o(4) pre_def by simp
    have p: "Remove LOCK_FILE \<notin> set pre" "RmTree (tmp_name e) \<notin> set pre"
      "Exec (benchmark_command (time a) (users a) (state a) (shards a) (nodes a)
         (rump_up a) (user a)) (Some (repo_dir_of e)) \<in> set pre"
      using o(5) by (auto simp: pre_def announce_only checkout_events_only)
    have d: "\<forall>p \<in> set (dirs (snd (orchestrate a e w))). \<not> within_dir (tmp_name e) p"
      unfolding o(3) by simp
    show ?thesis
      unfolding m using True o(1,2) d l p by auto
  next
    case False
    from orchestrate_checkout_fail [OF assms(2) False assms(3)]
    obtain m' evs where o: "fst (orchestrate a e w) = None"
      "lock (snd (orchestrate a e w)) = None"
      "dirs (snd (orchestrate a e w)) = filter (\<lambda>p. \<not> within_dir (tmp_name e) p) (dirs w)"
      "log (snd (orchestrate a e w)) =
         log w @ WriteFile LOCK_FILE (user a) # announce a @
         MkDTemp (tmp_name e) # evs @ [RmTree (tmp_name e), Print m', Remove LOCK_FILE]"
      "list_all is_exec evs"
      by blast
    define pre where "pre = WriteFile LOCK_FILE (user a) # announce a @ MkDTemp (tmp_name e) # evs"
    have l: "log (snd (orchestrate a e w)) =
        log w @ pre @ [RmTree (tmp_name e), Print m', Remove LOCK_FILE]"
      unfolding o(4) pre_def by simp
    have p: "Remove LOCK_FILE \<notin> set pre" "RmTree (tmp_name e) \<notin> set pre"
      using exec_only [OF o(5)] by (auto simp: pre_def announce_only)
    have d: "\<forall>p \<in> set (dirs (snd (orchestrate a e w))). \<not> within_dir (tmp_name e) p"
      unfolding o(3) by simp
    show ?thesis
      unfolding m using False o(1,2) d l p by auto
  qed
qed

lemma finally_steps_no_workspace: "finally_steps release teardown None w0 = release w0"
  by (cases "release w0") (auto simp: finally_steps_def split: option.splits)

lemma finally_steps_released:
  "fst (release w0) = None \<Longrightarrow>
     finally_steps release teardown (Some p0) w0 =
       (if p0 \<in> set (dirs (snd (release w0)))
        then teardown (os_path_dirname p0) (snd (release w0))
        else (None, snd (release w0)))"
  by (cases "release w0") (auto simp: finally_steps_def)

text \<open>
  C1 (cleanup), as stated: the workspace is torn down before the lock is released, and
  each of the two steps runs even if the other fails. In a run in which everything
  succeeds the lock is released first and the workspace removed after it. And when the
  release raises (here \<^verbatim>\<open>os.remove\<close> refusing to delete the marker), the
  \<^verbatim>\<open>finally\<close> block ends there: the workspace is not removed.
\<close>

theorem release_first_and_teardown_depends_on_it:
  "main (\<lambda>s. None) [] quiet_env empty_world =
     (None,
      \<lparr>lock = None, dirs = [],
       log = [WriteFile ''/tmp/run-ft-benchmark.lock'' ''default_user'',
              Print ''Time: 1h'', Print ''Users: 100'', Print ''State: 1G'',
              Print ''Shards: 1'', Print ''Nodes: 1'', Print ''Rump-up: 5'',
              Print ''User: default_user'', MkDTemp ''/tmp/tmpab12'',
              Exec ''git config --global http.postBuffer 524288000'' None,
              Exec ''git clone https://github.com/near/nearcore /tmp/tmpab12/nearcore'' None,
              Exec ''git fetch'' (Some ''/tmp/tmpab12/nearcore''),
              Exec ''git rev-parse origin/master'' (Some ''/tmp/tmpab12/nearcore''),
              Exec ''git checkout abc123'' (Some ''/tmp/tmpab12/nearcore''),
              Print ''Using commit: abc123'',
              Exec ''./scripts/start_benchmark.sh 1h 100 1G 1 1 5 default_user''
                (Some ''/tmp/tmpab12/nearcore''),
              Remove ''/tmp/run-ft-benchmark.lock'', RmTree ''/tmp/tmpab12'']\<rparr>) \<and>
   finally_steps denied_release shutil_rmtree (Some ''/tmp/tmpab12/nearcore'')
     \<lparr>lock = Some ''alice'', dirs = [''/tmp/tmpab12/nearcore'', ''/tmp/tmpab12''], log = []\<rparr> =
     (Some (OSError ''PermissionError''),
      \<lparr>lock = Some ''alice'', dirs = [''/tmp/tmpab12/nearcore'', ''/tmp/tmpab12''], log = []\<rparr>)"
  by (simp add: run_unfold quiet_env_def empty_world_def denied_release_def)

text \<open>
  C1, amended: a run that acquires the lock returns without an exception, and afterwards
  there is no lock marker and neither the temporary directory nor anything below it.
  When the checkout succeeded (the benchmark then runs, and succeeds or fails), the last
  two effects are the release of the lock and then the removal of the temporary
  directory, each happening once. When the checkout failed, the temporary directory was
  removed by the checkout itself, before the error is printed, and the release of the
  lock is the last effect. In the \<^verbatim>\<open>finally\<close> block the release comes first and so
  does not depend on the teardown; the teardown runs, on the world the release left,
  whenever the release has returned without raising.
\<close>

theorem cleanup_on_every_exit:
  assumes "parse_args py_int argv = Inr a" "lock w = None" "wf_tmp (tmp_name e)"
  shows "fst (main py_int argv e w) = None \<and>
     lock (snd (main py_int argv e w)) = None \<and>
     (\<forall>p \<in> set (dirs (snd (main py_int argv e w))). \<not> within_dir (tmp_name e) p) \<and>
     (if checkout_ok (commit a) e
      then (\<exists>pre. log (snd (main py_int argv e w)) =
                    log w @ pre @ [Remove LOCK_FILE, RmTree (tmp_name e)] \<and>
                  Exec (benchmark_command (time a) (users a) (state a) (shards a) (nodes a)
                          (rump_up a) (user a)) (Some (repo_dir_of e)) \<in> set pre \<and>
                  Remove LOCK_FILE \<notin> set pre \<and> RmTree (tmp_name e) \<notin> set pre)
      else (\<exists>pre m. log (snd (main py_int argv e w)) =
                      log w @ pre @ [RmTree (tmp_name e), Print m, Remove LOCK_FILE] \<and>
                    Remove LOCK_FILE \<notin> set pre \<and> RmTree (tmp_name e) \<notin> set pre)) \<and>
     finally_steps release teardown None w0 = release w0 \<and>
     (fst (release w0) = None \<longrightarrow>
        finally_steps release teardown (Some p0) w0 =
          (if p0 \<in> set (dirs (snd (release w0)))
           then teardown (os_path_dirname p0) (snd (release w0))
           else (None, snd (release w0))))"
  using run_cleanup [OF assms] finally_steps_no_workspace [of release teardown w0]
    finally_steps_released [of release w0 teardown p0]
  by blast

text \<open>
  The property at work: \<^verbatim>\<open>git fetch\<close> fails; and the two steps of the
  \<^verbatim>\<open>finally\<close> block on the world a successful checkout leaves.
\<close>

theorem cleanup_on_every_exit_witness:
  "parse_args (\<lambda>s. None) [] = Inr defaults \<and> lock empty_world = None \<and>
   wf_tmp (tmp_name fetch_fails_env) \<and> \<not> checkout_ok (commit defaults) fetch_fails_env \<and>
   fst (remove_lock_file workspace_world) = None \<and>
   fst (main (\<lambda>s. None) [] fetch_fails_env empty_world) = None \<and>
   lock (snd (main (\<lambda>s. None) [] fetch_fails_env empty_world)) = None \<and>
   tmp_name fetch_fails_env \<notin> set (dirs (snd (main (\<lambda>s. None) [] fetch_fails_env empty_world))) \<and>
   (\<exists>pre m. log (snd (main (\<lambda>s. None) [] fetch_fails_env empty_world)) =
       log empty_world @ pre @ [RmTree (tmp_name fetch_fails_env), Print m, Remove LOCK_FILE]) \<and>
   finally_steps remove_lock_file shutil_rmtree (Some ''/tmp/tmpab12/nearcore'') workspace_world =
     (None, \<lparr>lock = None, dirs = [],
             log = [Remove ''/tmp/run-ft-benchmark.lock'', RmTree ''/tmp/tmpab12'']\<rparr>)"
proof -
  have l: "lock empty_world = None" by (simp add: empty_world_def)
  have r: "fst (remove_lock_file workspace_world) = None"
    by (simp add: remove_lock_file_def os_remove_def workspace_world_def)
  note t = cleanup_on_every_exit [OF parse_no_options l wf_example_tmp(2),
      of remove_lock_file shutil_rmtree workspace_world "''/tmp/tmpab12/nearcore''"]
  from t have "\<forall>p \<in> set (dirs (snd (main (\<lambda>s. None) [] fetch_fails_env empty_world))).
      \<not> within_dir (tmp_name fetch_fails_env) p" by blast
  then have d: "tmp_name fetch_fails_env \<notin>
      set (dirs (snd (main (\<lambda>s. None) [] fetch_fails_env empty_world)))"
    using within_dir_self by blast
  from t fetch_fails_not_ok [of "commit defaults"]
  have g: "\<exists>pre m. log (snd (main (\<lambda>s. None) [] fetch_fails_env empty_world)) =
       log empty_world @ pre @ [RmTree (tmp_name fetch_fails_env), Print m, Remove LOCK_FILE]"
    by (simp only: if_False) blast
  from t r have "finally_steps remove_lock_file shutil_rmtree (Some ''/tmp/tmpab12/nearcore'')
       workspace_world =
     (if ''/tmp/tmpab12/nearcore'' \<in> set (dirs (snd (remove_lock_file workspace_world)))
      then shutil_rmtree (os_path_dirname ''/tmp/tmpab12/nearcore'')
             (snd (remove_lock_file workspace_world))
      else (None, snd (remove_lock_file workspace_world)))"
    by blast
  then have f: "finally_steps remove_lock_file shutil_rmtree (Some ''/tmp/tmpab12/nearcore'')
       workspace_world =
     (None, \<lparr>lock = None, dirs = [],
             log = [Remove ''/tmp/run-ft-benchmark.lock'', RmTree ''/tmp/tmpab12'']\<rparr>)"
    by (simp add: remove_lock_file_def os_remove_def workspace_world_def shutil_rmtree_def
        os_path_dirname_def within_dir_def LOCK_FILE_def)
  from t have "fst (main (\<lambda>s. None) [] fetch_fails_env empty_world) = None"
    "lock (snd (main (\<lambda>s. None) [] fetch_fails_env empty_world)) = None"
    by blast+
  with d g f l r parse_no_options wf_example_tmp(2) fetch_fails_not_ok show ?thesis by blast
qed

end
